theory Spec2Isabelle
  imports Complex_Main "HOL-Library.Sublist"
begin

section \<open>Python strings and built-ins used by the scripts\<close>

text \<open>
  A text file is the list of the lines its iterator yields; a line is a \<open>string\<close>
  (with or without its newline: every use below strips or splits it first).
  The characters \<open>str.isspace\<close> accepts in the ASCII range are the tab, the line
  feed, the vertical tab, the form feed, the carriage return, the four separators
  \<open>0x1C\<close> to \<open>0x1F\<close> and the space.
\<close>

definition is_space :: "char \<Rightarrow> bool" where
  "is_space c = (c \<in> set [CHR 0x09, CHR 0x0A, CHR 0x0B, CHR 0x0C, CHR 0x0D,
                           CHR 0x1C, CHR 0x1D, CHR 0x1E, CHR 0x1F, CHR 0x20])"

text \<open>\<open>s.strip()\<close>\<close>

definition strip :: "string \<Rightarrow> string" where
  "strip s = rev (dropWhile is_space (rev (dropWhile is_space s)))"

text \<open>\<open>s.split()\<close>: the maximal runs of non-space characters, in order.
  \<open>tokens cur s\<close> scans \<open>s\<close> with the run \<open>cur\<close> read so far.\<close>

fun tokens :: "string \<Rightarrow> string \<Rightarrow> string list" where
  "tokens cur [] = (if cur = [] then [] else [cur])"
| "tokens cur (c # cs) =
     (if is_space c then (if cur = [] then tokens [] cs else cur # tokens [] cs)
      else tokens (cur @ [c]) cs)"

definition split :: "string \<Rightarrow> string list" where
  "split s = tokens [] s"

text \<open>\<open>s.startswith(p)\<close>\<close>

definition startswith :: "string \<Rightarrow> string \<Rightarrow> bool" where
  "startswith s p = prefix p s"

text \<open>\<open>xs.index(x)\<close>, for an \<open>x\<close> that occurs in \<open>xs\<close>.\<close>

fun index_of :: "'a list \<Rightarrow> 'a \<Rightarrow> nat" where
  "index_of [] x = 0"
| "index_of (y # ys) x = (if y = x then 0 else Suc (index_of ys x))"

text \<open>
  The exceptions the scripts can meet. None of the scripts defines an exception class
  of its own: every failure is one of the interpreter's.
\<close>

datatype py_error =
  StopIteration | ValueError | IndexError | OverflowError | UnboundLocalError
  | TypeError | ZeroDivisionError | KeyError

text \<open>
  \<open>str(e)\<close> is empty for the \<open>StopIteration\<close> that \<open>next\<close> raises on an exhausted
  file (it is raised without arguments); the other exceptions carry the interpreter's
  message.
\<close>

fun has_message :: "py_error \<Rightarrow> bool" where
  "has_message StopIteration = False"
| "has_message _ = True"

text \<open>
  Floating-point numbers are a type parameter \<open>'f\<close>, and the built-in conversions on
  them are the fields of a record that every script function takes as its first
  argument: nothing below depends on how a double is rounded, and every statement
  proved for all \<open>P\<close> holds for the interpreter's own conversions.
  \<^item> \<open>py_float\<close> is \<open>float(token)\<close>, \<open>None\<close> when it raises \<open>ValueError\<close>;
  \<^item> \<open>py_int\<close> is \<open>int(line)\<close> on a string, \<open>None\<close> when it raises \<open>ValueError\<close>;
  \<^item> \<open>int_of_float\<close> is \<open>int(v)\<close> on a float (\<open>ValueError\<close> on a NaN, \<open>OverflowError\<close>
    on an infinity);
  \<^item> \<open>fmt6\<close> is the format \<open>{v:.6f}\<close> and \<open>fmt6e\<close> the format \<open>{v:.6e}\<close>;
  \<^item> \<open>f_zero\<close> is the literal \<open>0.0\<close>, \<open>f_sub\<close> and \<open>f_neg\<close> are subtraction and
    negation, \<open>f_div\<close> is division, \<open>None\<close> when it raises \<open>ZeroDivisionError\<close>.
\<close>

record 'f builtins =
  py_float :: "string \<Rightarrow> 'f option"
  py_int :: "string \<Rightarrow> int option"
  int_of_float :: "'f \<Rightarrow> py_error + int"
  fmt6 :: "'f \<Rightarrow> string"
  fmt6e :: "'f \<Rightarrow> string"
  f_zero :: "'f"
  f_sub :: "'f \<Rightarrow> 'f \<Rightarrow> 'f"
  f_neg :: "'f \<Rightarrow> 'f"
  f_div :: "'f \<Rightarrow> 'f \<Rightarrow> 'f option"

text \<open>\<open>list(map(float, toks))\<close>: \<open>None\<close> when one token raises \<open>ValueError\<close>.\<close>

definition floats :: "'f builtins \<Rightarrow> string list \<Rightarrow> 'f list option" where
  "floats P toks = those (map (py_float P) toks)"

section \<open>convert_to_trajectory.py: read_dump_voro\<close>

text \<open>
  One element of \<open>data\<close>: the tuple \<open>(timestep, positions, box_bounds, atom_ids)\<close>;
  \<open>box_bounds\<close> is \<open>None\<close> until a BOX BOUNDS marker has been read.
\<close>

type_synonym 'f snapshot = "int \<times> 'f list list \<times> 'f list list option \<times> int list"

text \<open>
  The local variables of \<open>read_dump_voro\<close>. The four column indices \<open>id_idx\<close>,
  \<open>x_idx\<close>, \<open>y_idx\<close>, \<open>z_idx\<close> are assigned together and are unbound before the first
  ATOMS marker: \<open>col_idx\<close> is \<open>None\<close> until then.
\<close>

record 'f scan =
  data :: "'f snapshot list"
  current_timestep :: "int option"
  current_data :: "'f list list"
  box_bounds :: "'f list list option"
  atom_ids :: "int list"
  col_idx :: "(nat \<times> nat \<times> nat \<times> nat) option"

definition init_scan :: "'f scan" where
  "init_scan = \<lparr>data = [], current_timestep = None, current_data = [],
                 box_bounds = None, atom_ids = [], col_idx = None\<rparr>"

text \<open>\<open>headers.index(name) if name in headers else dflt\<close>\<close>

definition column :: "string list \<Rightarrow> string \<Rightarrow> nat \<Rightarrow> nat" where
  "column headers name dflt = (if name \<in> set headers then index_of headers name else dflt)"

text \<open>
  \<open>if current_timestep is not None and current_data: data.append(...)\<close>, the
  statement before the reset at a TIMESTEP marker and after the loop.
\<close>

definition emit :: "'f scan \<Rightarrow> 'f snapshot list" where
  "emit st =
     (case current_timestep st of
        None \<Rightarrow> data st
      | Some t \<Rightarrow>
          if current_data st \<noteq> []
          then data st @ [(t, current_data st, box_bounds st, atom_ids st)]
          else data st)"

text \<open>
  The three iterations after a BOX BOUNDS marker: each takes the next line of the
  file (\<open>StopIteration\<close> at its end) and converts every token of it
  (\<open>ValueError\<close>, not caught here).
\<close>

fun read_bounds ::
  "'f builtins \<Rightarrow> nat \<Rightarrow> 'f list list \<Rightarrow> string list \<Rightarrow> py_error + ('f list list \<times> string list)"
where
  "read_bounds P 0 acc ls = Inr (acc, ls)"
| "read_bounds P (Suc n) acc [] = Inl StopIteration"
| "read_bounds P (Suc n) acc (l # rest) =
     (case floats P (split l) of
        None \<Rightarrow> Inl ValueError
      | Some b \<Rightarrow> read_bounds P n (acc @ [b]) rest)"

text \<open>
  The \<open>try\<close> block of a data line. \<open>ValueError\<close> is the only exception caught: the
  line is skipped. An index beyond the line's values raises \<open>IndexError\<close>, an unbound
  index \<open>UnboundLocalError\<close>, and \<open>int\<close> of an infinity \<open>OverflowError\<close>; they leave
  the function.
\<close>

definition data_line :: "'f builtins \<Rightarrow> 'f scan \<Rightarrow> string \<Rightarrow> py_error + 'f scan" where
  "data_line P st line =
     (case floats P (split line) of
        None \<Rightarrow> Inr st
      | Some vals \<Rightarrow>
          if 4 \<le> length vals then
            (case col_idx st of
               None \<Rightarrow> Inl UnboundLocalError
             | Some (id_idx, x_idx, y_idx, z_idx) \<Rightarrow>
                 if length vals \<le> id_idx then Inl IndexError
                 else
                   (case int_of_float P (vals ! id_idx) of
                      Inl e \<Rightarrow> (if e = ValueError then Inr st else Inl e)
                    | Inr n \<Rightarrow>
                        if length vals \<le> x_idx \<or> length vals \<le> y_idx \<or> length vals \<le> z_idx
                        then Inl IndexError
                        else Inr (st\<lparr>atom_ids := atom_ids st @ [n],
                                      current_data := current_data st
                                        @ [[vals ! x_idx, vals ! y_idx, vals ! z_idx]]\<rparr>)))
          else Inr st)"

text \<open>
  The body of the \<open>for\<close> loop on one line \<open>l\<close>, with \<open>rest\<close> the lines the file
  iterator still holds: the result is the new state and the lines left, since the
  body itself takes lines with \<open>next(f)\<close>.
\<close>

definition step ::
  "'f builtins \<Rightarrow> 'f scan \<Rightarrow> string \<Rightarrow> string list \<Rightarrow> py_error + ('f scan \<times> string list)"
where
  "step P st l rest =
     (let line = strip l in
      if startswith line ''ITEM: TIMESTEP'' then
        (let st1 = st\<lparr>data := emit st\<rparr>;
             st2 = st1\<lparr>current_data := [], atom_ids := []\<rparr>
         in case rest of
              [] \<Rightarrow> Inl StopIteration
            | n # rest' \<Rightarrow>
                (case py_int P n of
                   None \<Rightarrow> Inl ValueError
                 | Some t \<Rightarrow> Inr (st2\<lparr>current_timestep := Some t\<rparr>, rest')))
      else if startswith line ''ITEM: BOX BOUNDS'' then
        (case read_bounds P 3 [] rest of
           Inl e \<Rightarrow> Inl e
         | Inr (bb, rest') \<Rightarrow> Inr (st\<lparr>box_bounds := Some bb\<rparr>, rest'))
      else if startswith line ''ITEM:'' then
        (if \<not> startswith line ''ITEM: ATOMS'' then Inr (st, rest)
         else case rest of
                [] \<Rightarrow> Inl StopIteration
              | h # rest' \<Rightarrow>
                  (let headers = split (strip h)
                   in Inr (st\<lparr>col_idx := Some (column headers ''id'' 0, column headers ''x'' 1,
                                                 column headers ''y'' 2, column headers ''z'' 3)\<rparr>,
                           rest')))
      else if current_timestep st \<noteq> None then
        (case data_line P st line of Inl e \<Rightarrow> Inl e | Inr st' \<Rightarrow> Inr (st', rest))
      else Inr (st, rest))"

lemma read_bounds_length:
  "read_bounds P n acc ls = Inr (bb, rest) \<Longrightarrow> length rest \<le> length ls"
  by (induction P n acc ls rule: read_bounds.induct) (auto split: option.splits)

lemma step_length:
  "step P st l rest = Inr (st', rest') \<Longrightarrow> length rest' \<le> length rest"
  by (auto simp: step_def Let_def split: if_splits list.splits option.splits sum.splits
           dest: read_bounds_length)

text \<open>The \<open>for\<close> loop over the file.\<close>

function loop :: "'f builtins \<Rightarrow> 'f scan \<Rightarrow> string list \<Rightarrow> py_error + 'f scan" where
  "loop P st [] = Inr st"
| "loop P st (l # rest) =
     (case step P st l rest of
        Inl e \<Rightarrow> Inl e
      | Inr (st', rest') \<Rightarrow> loop P st' rest')"
  by pat_completeness auto
termination
  by (relation "measure (\<lambda>(P, st, ls). length ls)") (auto dest: step_length)

definition read_dump_voro :: "'f builtins \<Rightarrow> string list \<Rightarrow> py_error + 'f snapshot list" where
  "read_dump_voro P file =
     (case loop P init_scan file of
        Inl e \<Rightarrow> Inl e
      | Inr st \<Rightarrow> Inr (emit st))"

text \<open>\<open>str(n)\<close> for a natural number and for an integer.\<close>

function show_nat :: "nat \<Rightarrow> string" where
  "show_nat n =
     (if n < 10 then [''0123456789'' ! n]
      else show_nat (n div 10) @ [''0123456789'' ! (n mod 10)])"
  by pat_completeness auto
termination
  by (relation "measure id") auto

declare show_nat.simps [simp del]

definition show_int :: "int \<Rightarrow> string" where
  "show_int i = (if i < 0 then CHR ''-'' # show_nat (nat (- i)) else show_nat (nat i))"

section \<open>convert_to_trajectory.py: write_trajectory, verify_output, main\<close>

text \<open>
  The output file is the list of the strings written, one \<open>f.write\<close> each, all ending
  in a newline. An exception leaves the file with what was written before it: the
  result is that list and the exception, if any.
\<close>

definition nl :: "string \<Rightarrow> string" where
  "nl s = s @ [CHR 0x0A]"

text \<open>The line \<open>f"{bounds[0]:.6f} {bounds[1]:.6f}\n"\<close>, for bounds of two values or more.\<close>

definition bound_line :: "'f builtins \<Rightarrow> 'f list \<Rightarrow> string" where
  "bound_line P b = nl (fmt6 P (b ! 0) @ '' '' @ fmt6 P (b ! 1))"

text \<open>\<open>for bounds in box_bounds: f.write(...)\<close>; bounds of fewer than two values raise
  \<open>IndexError\<close>.\<close>

fun write_bounds :: "'f builtins \<Rightarrow> 'f list list \<Rightarrow> string list \<times> py_error option" where
  "write_bounds P [] = ([], None)"
| "write_bounds P (b # bs) =
     (if length b < 2 then ([], Some IndexError)
      else (case write_bounds P bs of (ls, e) \<Rightarrow> (bound_line P b # ls, e)))"

text \<open>The line \<open>f"{atom_id} 1 {pos[0]:.6f} {pos[1]:.6f} {pos[2]:.6f}\n"\<close>, for a position
  of three values or more.\<close>

definition atom_line :: "'f builtins \<Rightarrow> int \<times> 'f list \<Rightarrow> string" where
  "atom_line P a =
     (case a of
        (atom_id, pos) \<Rightarrow>
          nl (show_int atom_id @ '' 1 '' @ fmt6 P (pos ! 0) @ '' '' @ fmt6 P (pos ! 1)
                @ '' '' @ fmt6 P (pos ! 2)))"

text \<open>The loop over \<open>zip(atom_ids, positions)\<close>; a position of fewer than three values
  raises \<open>IndexError\<close>.\<close>

fun write_atoms :: "'f builtins \<Rightarrow> (int \<times> 'f list) list \<Rightarrow> string list \<times> py_error option" where
  "write_atoms P [] = ([], None)"
| "write_atoms P ((atom_id, pos) # rest) =
     (if length pos < 3 then ([], Some IndexError)
      else (case write_atoms P rest of (ls, e) \<Rightarrow> (atom_line P (atom_id, pos) # ls, e)))"

definition default_bounds :: "string list" where
  "default_bounds = [nl ''0.0 100.0'', nl ''0.0 100.0'', nl ''0.0 100.0'']"

text \<open>\<open>if box_bounds:\<close> is false for \<open>None\<close> and for the empty list.\<close>

fun bounds_lines :: "'f builtins \<Rightarrow> 'f list list option \<Rightarrow> string list \<times> py_error option" where
  "bounds_lines P None = (default_bounds, None)"
| "bounds_lines P (Some []) = (default_bounds, None)"
| "bounds_lines P (Some (b # bs)) = write_bounds P (b # bs)"

text \<open>The body of the loop over \<open>data\<close>, for one tuple.\<close>

fun write_snapshot :: "'f builtins \<Rightarrow> 'f snapshot \<Rightarrow> string list \<times> py_error option" where
  "write_snapshot P (timestep, positions, bb, ids) =
     (let head = [nl ''ITEM: TIMESTEP'', nl (show_int timestep),
                  nl ''ITEM: NUMBER OF ATOMS'', nl (show_int (int (length positions))),
                  nl ''ITEM: BOX BOUNDS pp pp pp'']
      in case bounds_lines P bb of
           (bl, Some e) \<Rightarrow> (head @ bl, Some e)
         | (bl, None) \<Rightarrow>
             (case write_atoms P (zip ids positions) of
                (al, e) \<Rightarrow> (head @ bl @ [nl ''ITEM: ATOMS id type x y z''] @ al, e)))"

fun write_trajectory :: "'f builtins \<Rightarrow> 'f snapshot list \<Rightarrow> string list \<times> py_error option" where
  "write_trajectory P [] = ([], None)"
| "write_trajectory P (s # rest) =
     (case write_snapshot P s of
        (ls, Some e) \<Rightarrow> (ls, Some e)
      | (ls, None) \<Rightarrow> (case write_trajectory P rest of (ls', e) \<Rightarrow> (ls @ ls', e)))"

text \<open>
  \<open>verify_output\<close> takes ten lines from each file with \<open>next\<close>, the input first:
  a file with fewer lines raises \<open>StopIteration\<close>. Only the first lines are compared.
\<close>

definition verify_output :: "string list \<Rightarrow> string list \<Rightarrow> py_error + bool" where
  "verify_output input_file output_file =
     (if length input_file < 10 then Inl StopIteration
      else if length output_file < 10 then Inl StopIteration
      else Inr (strip (input_file ! 0) = strip (output_file ! 0)))"

text \<open>
  \<open>main\<close>: read, write, verify. It returns nothing; the model gives the file written
  and the verdict of \<open>verify_output\<close>, or the exception that ends the script.
\<close>

definition main :: "'f builtins \<Rightarrow> string list \<Rightarrow> py_error + (string list \<times> bool)" where
  "main P input_file =
     (case read_dump_voro P input_file of
        Inl e \<Rightarrow> Inl e
      | Inr d \<Rightarrow>
          (case write_trajectory P d of
             (out, Some e) \<Rightarrow> Inl e
           | (out, None) \<Rightarrow>
               (case verify_output input_file out of
                  Inl e \<Rightarrow> Inl e
                | Inr ok \<Rightarrow> Inr (out, ok))))"

section \<open>extract_stress_strain_data.py\<close>

text \<open>
  The log file is its path and, when it exists, its lines. The function prints to the
  standard output and returns a list of rows \<open>(step, strain, stress)\<close> or \<open>None\<close>:
  the model returns both, the printed lines first. \<open>exc_text\<close> is \<open>str(e)\<close> for
  the two exceptions that the outer handler can meet.
\<close>

definition stress_component_key :: "string \<Rightarrow> string option" where
  "stress_component_key loading_direction =
     (if loading_direction = ''x'' then Some ''Pxx''
      else if loading_direction = ''y'' then Some ''Pyy''
      else if loading_direction = ''z'' then Some ''Pzz''
      else None)"

definition required_keys :: "string \<Rightarrow> string list" where
  "required_keys key = [''Step'', key, ''Lx'', ''Ly'', ''Lz'']"

definition stress_keys :: "string list" where
  "stress_keys = [''Pxx'', ''Pyy'', ''Pzz'', ''Pxy'', ''Pxz'', ''Pyz'']"

record 'f extraction =
  stress_strain_data :: "(int \<times> 'f \<times> 'f) list"
  header_line_found :: bool
  header :: "string list"
  header_indices :: "string \<Rightarrow> nat option"
  initial_L :: "('f \<times> 'f \<times> 'f) option"
  printed :: "string list"

definition init_extraction :: "'f extraction" where
  "init_extraction = \<lparr>stress_strain_data = [], header_line_found = False, header = [],
                       header_indices = (\<lambda>k. None), initial_L = None, printed = []\<rparr>"

text \<open>\<open>for key in keys: if key in header: header_indices[key] = header.index(key)\<close>\<close>

fun store_indices :: "string list \<Rightarrow> string list \<Rightarrow> (string \<Rightarrow> nat option) \<Rightarrow> (string \<Rightarrow> nat option)" where
  "store_indices hdr [] m = m"
| "store_indices hdr (k # ks) m =
     store_indices hdr ks (if k \<in> set hdr then m(k \<mapsto> index_of hdr k) else m)"

text \<open>\<open>values[header_indices[key]]\<close>\<close>

definition field :: "(string \<Rightarrow> nat option) \<Rightarrow> string list \<Rightarrow> string \<Rightarrow> py_error + string" where
  "field m vals key =
     (case m key of
        None \<Rightarrow> Inl KeyError
      | Some i \<Rightarrow> if i < length vals then Inr (vals ! i) else Inl IndexError)"

definition float_field ::
  "'f builtins \<Rightarrow> (string \<Rightarrow> nat option) \<Rightarrow> string list \<Rightarrow> string \<Rightarrow> py_error + 'f" where
  "float_field P m vals key =
     (case field m vals key of
        Inl e \<Rightarrow> Inl e
      | Inr s \<Rightarrow> (case py_float P s of None \<Rightarrow> Inl ValueError | Some v \<Rightarrow> Inr v))"

text \<open>
  The strain of a row whose step is not 0: the relative change of the box length in
  the loading direction. Before a row of step 0 the initial lengths are still \<open>None\<close>
  and the subtraction raises \<open>TypeError\<close>.
\<close>

definition strain_of ::
  "'f builtins \<Rightarrow> string \<Rightarrow> ('f \<times> 'f \<times> 'f) option \<Rightarrow> 'f \<times> 'f \<times> 'f \<Rightarrow> py_error + 'f" where
  "strain_of P loading_direction init L =
     (case init of
        None \<Rightarrow> Inl TypeError
      | Some (ix, iy, iz) \<Rightarrow>
          (case L of
             (Lx, Ly, Lz) \<Rightarrow>
               (let (cur, ini) =
                      (if loading_direction = ''x'' then (Lx, ix)
                       else if loading_direction = ''y'' then (Ly, iy) else (Lz, iz))
                in case f_div P (f_sub P cur ini) ini of
                     None \<Rightarrow> Inl ZeroDivisionError
                   | Some s \<Rightarrow> Inr s)))"

text \<open>The inner \<open>try\<close> block of a data row, before its handler.\<close>

definition data_row ::
  "'f builtins \<Rightarrow> string \<Rightarrow> string \<Rightarrow> 'f extraction \<Rightarrow> string list \<Rightarrow> py_error + 'f extraction" where
  "data_row P loading_direction key st vals =
     (case field (header_indices st) vals ''Step'' of
        Inl e \<Rightarrow> Inl e
      | Inr s \<Rightarrow>
     (case py_int P s of
        None \<Rightarrow> Inl ValueError
      | Some step_no \<Rightarrow>
     (case float_field P (header_indices st) vals key of
        Inl e \<Rightarrow> Inl e
      | Inr stress_value \<Rightarrow>
     (case float_field P (header_indices st) vals ''Lx'' of
        Inl e \<Rightarrow> Inl e
      | Inr Lx \<Rightarrow>
     (case float_field P (header_indices st) vals ''Ly'' of
        Inl e \<Rightarrow> Inl e
      | Inr Ly \<Rightarrow>
     (case float_field P (header_indices st) vals ''Lz'' of
        Inl e \<Rightarrow> Inl e
      | Inr Lz \<Rightarrow>
          if step_no = 0 then
            Inr (st\<lparr>initial_L := Some (Lx, Ly, Lz),
                    stress_strain_data := stress_strain_data st
                      @ [(step_no, f_zero P, f_neg P stress_value)]\<rparr>)
          else
            (case strain_of P loading_direction (initial_L st) (Lx, Ly, Lz) of
               Inl e \<Rightarrow> Inl e
             | Inr strain \<Rightarrow>
                 Inr (st\<lparr>stress_strain_data := stress_strain_data st
                            @ [(step_no, strain, f_neg P stress_value)]\<rparr>))))))))"

text \<open>
  The body of the loop on one line of the log. The handler of the inner \<open>try\<close>
  catches \<open>ValueError\<close> and \<open>IndexError\<close> and skips the row; any other exception
  reaches the outer handler.
\<close>

definition log_line ::
  "'f builtins \<Rightarrow> string \<Rightarrow> string \<Rightarrow> 'f extraction \<Rightarrow> string \<Rightarrow> py_error + 'f extraction" where
  "log_line P loading_direction key st l =
     (let line = strip l in
      if \<not> header_line_found st \<and> startswith line ''Step'' then
        (let hdr = split line in
         if list_all (\<lambda>k. k \<in> set hdr) (required_keys key) then
           Inr (st\<lparr>header := hdr, header_line_found := True,
                   header_indices :=
                     store_indices hdr stress_keys
                       (store_indices hdr (required_keys key) (header_indices st)),
                   printed := printed st @ [''Log file header identified.'']\<rparr>)
         else Inr (st\<lparr>header := hdr\<rparr>))
      else if header_line_found st \<and> length (split line) = length (header st) then
        (case data_row P loading_direction key st (split line) of
           Inl e \<Rightarrow> (if e = ValueError \<or> e = IndexError then Inr st else Inl e)
         | Inr st' \<Rightarrow> Inr st')
      else Inr st)"

text \<open>
  The loop over the log. An exception that leaves the body ends it, with the lines
  printed so far.
\<close>

fun log_loop ::
  "'f builtins \<Rightarrow> string \<Rightarrow> string \<Rightarrow> 'f extraction \<Rightarrow> string list
     \<Rightarrow> (py_error \<times> string list) + 'f extraction" where
  "log_loop P loading_direction key st [] = Inr st"
| "log_loop P loading_direction key st (l # ls) =
     (case log_line P loading_direction key st l of
        Inl e \<Rightarrow> Inl (e, printed st)
      | Inr st' \<Rightarrow> log_loop P loading_direction key st' ls)"

definition extract_stress_strain_data ::
  "'f builtins \<Rightarrow> (py_error \<Rightarrow> string) \<Rightarrow> string \<Rightarrow> string list option \<Rightarrow> string
     \<Rightarrow> py_error + (string list \<times> (int \<times> 'f \<times> 'f) list option)" where
  "extract_stress_strain_data P exc_text log_file contents loading_direction =
     (case stress_component_key loading_direction of
        None \<Rightarrow> Inl KeyError
      | Some key \<Rightarrow>
          (case contents of
             None \<Rightarrow> Inr ([''Error: Log file not found at '' @ log_file], None)
           | Some ls \<Rightarrow>
               (case log_loop P loading_direction key init_extraction ls of
                  Inl (e, out) \<Rightarrow>
                    Inr (out @ [''An unexpected error occurred while reading the log file: ''
                                  @ exc_text e], None)
                | Inr st \<Rightarrow>
                    if \<not> header_line_found st then
                      Inr (printed st
                             @ [''Error: Could not find the thermo output header line in the log file.'',
                                ''Please ensure 'thermo_style custom' is configured correctly in your LAMMPS input.''],
                           None)
                    else Inr (printed st, Some (stress_strain_data st)))))"

text \<open>
  \<open>write_stress_strain_data\<close>: the file written (\<open>None\<close> when nothing is written)
  and the line printed. Its handler catches the \<open>KeyError\<close> of an unknown loading
  direction and prints it.
\<close>

fun write_stress_strain_data ::
  "'f builtins \<Rightarrow> (int \<times> 'f \<times> 'f) list option \<Rightarrow> string \<Rightarrow> string
     \<Rightarrow> string list option \<times> string list" where
  "write_stress_strain_data P None output_file loading_direction = (None, [''No data to write.''])"
| "write_stress_strain_data P (Some []) output_file loading_direction =
     (None, [''No data to write.''])"
| "write_stress_strain_data P (Some (r # rs)) output_file loading_direction =
     (case stress_component_key loading_direction of
        None \<Rightarrow>
          (None, [''Error writing data to file: '' @ [CHR 0x27] @ loading_direction @ [CHR 0x27]])
      | Some stress_label \<Rightarrow>
          (Some (nl (''# Timestep, Strain, Stress ('' @ stress_label @ '')'')
                 # map (\<lambda>(step_no, strain, stress).
                          nl (show_int step_no @ '', '' @ fmt6e P strain @ '', ''
                                @ fmt6e P stress))
                       (r # rs)),
           [''Stress-strain data written to '' @ output_file]))"

text \<open>
  The script: what it prints, the output file it writes (if any) and its exit status.
  The script calls nothing that sets an exit status: it ends with status 0 unless an
  exception leaves it (status 1).
\<close>

record script_result =
  stdout :: "string list"
  written :: "string list option"
  exit_status :: nat

definition stress_strain_script ::
  "'f builtins \<Rightarrow> (py_error \<Rightarrow> string) \<Rightarrow> string list option \<Rightarrow> script_result" where
  "stress_strain_script P exc_text contents =
     (case extract_stress_strain_data P exc_text ''lammps.log'' contents ''z'' of
        Inl e \<Rightarrow> \<lparr>stdout = [], written = None, exit_status = 1\<rparr>
      | Inr (out, rows) \<Rightarrow>
          if rows \<noteq> None \<and> rows \<noteq> Some [] then
            (case write_stress_strain_data P rows ''stress_strain_data.txt'' ''z'' of
               (file, msgs) \<Rightarrow> \<lparr>stdout = out @ msgs, written = file, exit_status = 0\<rparr>)
          else \<lparr>stdout = out @ [''Failed to extract stress-strain data.''],
                written = None, exit_status = 0\<rparr>)"

section \<open>Fixed-point renderings\<close>

text \<open>
  A number rendered in fixed-point format with exactly six digits after the decimal
  point: an optional minus sign, one digit or more, a point, six digits.
\<close>

text \<open>A token: a string that is not empty and holds no space.\<close>

definition no_space :: "string \<Rightarrow> bool" where
  "no_space s = (s \<noteq> [] \<and> (\<forall>c \<in> set s. \<not> is_space c))"

definition is_digit :: "char \<Rightarrow> bool" where
  "is_digit c = (c \<in> set ''0123456789'')"

definition unsigned :: "string \<Rightarrow> string" where
  "unsigned s = (case s of [] \<Rightarrow> [] | c # r \<Rightarrow> if c = CHR ''-'' then r else c # r)"

definition six_decimals :: "string \<Rightarrow> bool" where
  "six_decimals s =
     (let ip = takeWhile (\<lambda>c. c \<noteq> CHR ''.'') (unsigned s);
          fp = drop 1 (dropWhile (\<lambda>c. c \<noteq> CHR ''.'') (unsigned s))
      in ip \<noteq> [] \<and> list_all is_digit ip \<and> length fp = 6 \<and> list_all is_digit fp)"

text \<open>
  What \<open>write_trajectory\<close> is to write for one snapshot, line by line: the five header
  lines, the bounds (the default cube when there are none), the ATOMS marker, and
  one line per pair of \<open>zip(atom_ids, positions)\<close>, in order.
\<close>

definition snapshot_text :: "'f builtins \<Rightarrow> 'f snapshot \<Rightarrow> string list" where
  "snapshot_text P s =
     (case s of
        (timestep, positions, bb, ids) \<Rightarrow>
          [nl ''ITEM: TIMESTEP'', nl (show_int timestep), nl ''ITEM: NUMBER OF ATOMS'',
           nl (show_int (int (length positions))), nl ''ITEM: BOX BOUNDS pp pp pp'']
          @ (if bb = None \<or> bb = Some [] then default_bounds else map (bound_line P) (the bb))
          @ [nl ''ITEM: ATOMS id type x y z'']
          @ map (atom_line P) (zip ids positions))"

text \<open>
  What every snapshot returned by \<open>read_dump_voro\<close> has: a particle or more, as many
  ids as positions, positions of three values, and bounds that are \<open>None\<close> or three
  lists.
\<close>

definition well_read :: "'f snapshot \<Rightarrow> bool" where
  "well_read s =
     (case s of
        (timestep, positions, bb, ids) \<Rightarrow>
          positions \<noteq> [] \<and> length ids = length positions
          \<and> list_all (\<lambda>p. length p = 3) positions
          \<and> (case bb of None \<Rightarrow> True | Some bs \<Rightarrow> length bs = 3))"

definition scan_inv :: "'f scan \<Rightarrow> bool" where
  "scan_inv st =
     (length (atom_ids st) = length (current_data st)
      \<and> list_all (\<lambda>p. length p = 3) (current_data st)
      \<and> (case box_bounds st of None \<Rightarrow> True | Some bs \<Rightarrow> length bs = 3)
      \<and> list_all well_read (data st))"

section \<open>A concrete instance of the built-ins, for evaluation\<close>

text \<open>
  For the examples the built-ins are instantiated on the rationals, reading plain
  decimal tokens (an optional sign, digits, at most one point) exactly. Every finite
  double is a rational, and on a finite double \<open>{v:.6f}\<close> is the correctly rounded
  (ties to even) decimal expansion of its exact value, which is what \<open>rat_fmt6\<close>
  computes. The interpreter accepts more tokens than \<open>dec_float\<close> does (exponents,
  \<open>inf\<close>, \<open>nan\<close>, underscores) and rounds a decimal to the nearest double; the
  examples use none of the former, and no statement below depends on the latter.
\<close>

definition digit_of :: "char \<Rightarrow> nat option" where
  "digit_of c = (if c \<in> set ''0123456789'' then Some (index_of ''0123456789'' c) else None)"

fun digits_val :: "nat \<Rightarrow> string \<Rightarrow> nat option" where
  "digits_val acc [] = Some acc"
| "digits_val acc (c # cs) =
     (case digit_of c of None \<Rightarrow> None | Some d \<Rightarrow> digits_val (10 * acc + d) cs)"

text \<open>The sign of a numeric token and what follows it.\<close>

fun signed :: "string \<Rightarrow> bool \<times> string" where
  "signed [] = (False, [])"
| "signed (c # cs) =
     (if c = CHR ''-'' then (True, cs) else if c = CHR ''+'' then (False, cs) else (False, c # cs))"

definition dec_int :: "string \<Rightarrow> int option" where
  "dec_int s =
     (case signed (strip s) of
        (neg, ds) \<Rightarrow>
          if ds = [] then None
          else (case digits_val 0 ds of
                  None \<Rightarrow> None
                | Some n \<Rightarrow> Some (if neg then - int n else int n)))"

definition dec_float :: "string \<Rightarrow> rat option" where
  "dec_float s =
     (case signed (strip s) of
        (neg, ds) \<Rightarrow>
          (let ip = takeWhile (\<lambda>c. c \<noteq> CHR ''.'') ds;
               fp = drop 1 (dropWhile (\<lambda>c. c \<noteq> CHR ''.'') ds)
           in if ip = [] \<and> fp = [] then None
              else (case (digits_val 0 ip, digits_val 0 fp) of
                      (Some a, Some b) \<Rightarrow>
                        (let q = of_nat a + of_nat b / 10 ^ length fp
                         in Some (if neg then - q else q))
                    | _ \<Rightarrow> None)))"

definition round_half_even :: "rat \<Rightarrow> int" where
  "round_half_even q =
     (let f = \<lfloor>q\<rfloor>; d = q - of_int f
      in if d < 1 / 2 then f else if 1 / 2 < d then f + 1 else if even f then f else f + 1)"

definition rat_fmt6 :: "rat \<Rightarrow> string" where
  "rat_fmt6 q =
     (let n = nat (round_half_even (\<bar>q\<bar> * 1000000));
          fp = show_nat (n mod 1000000)
      in (if q < 0 then ''-'' else []) @ show_nat (n div 1000000) @ ''.''
           @ replicate (6 - length fp) (CHR ''0'') @ fp)"

text \<open>
  \<open>{v:.6e}\<close> is used by the stress-strain writer only, and no example below writes a
  row with it: the instance leaves it as the fixed-point rendering.
\<close>

definition D :: "rat builtins" where
  "D = \<lparr>py_float = dec_float, py_int = dec_int,
        int_of_float = (\<lambda>q. Inr (if q < 0 then - \<lfloor>- q\<rfloor> else \<lfloor>q\<rfloor>)),
        fmt6 = rat_fmt6, fmt6e = rat_fmt6,
        f_zero = 0, f_sub = (\<lambda>a b. a - b), f_neg = (\<lambda>a. - a),
        f_div = (\<lambda>a b. if b = 0 then None else Some (a / b))\<rparr>"

section \<open>Example files\<close>

text \<open>The two-snapshot dump of the specification's concrete scenario.\<close>

definition scenario_file :: "string list" where
  "scenario_file =
     [''ITEM: TIMESTEP'', ''0'', ''ITEM: NUMBER OF ATOMS'', ''2'',
      ''ITEM: BOX BOUNDS pp pp pp'', ''0.0 10.0'', ''0.0 10.0'', ''0.0 10.0'',
      ''ITEM: ATOMS id type x y z'', ''1 1 1.0 1.0 1.0'', ''2 1 2.0 2.0 2.0'',
      ''ITEM: TIMESTEP'', ''100'', ''ITEM: NUMBER OF ATOMS'', ''2'',
      ''ITEM: BOX BOUNDS pp pp pp'', ''0.0 10.5'', ''0.0 10.5'', ''0.0 10.5'',
      ''ITEM: ATOMS id type x y z'', ''1 1 1.1 1.0 1.0'', ''2 1 2.3 2.0 2.0'']"

text \<open>A dump whose ATOMS marker names the columns in the order \<open>x y z id\<close>.\<close>

definition reordered_file :: "string list" where
  "reordered_file =
     [''ITEM: TIMESTEP'', ''0'', ''ITEM: ATOMS x y z id'',
      ''1.5 2.5 3.5 7'', ''4.5 5.5 6.5 8'', ''7.5 8.5 9.5 9'']"

text \<open>
  A dump with a line that is not a particle record at the head of its ATOMS
  section, and the same dump without that line.
\<close>

definition garbled_file :: "string list" where
  "garbled_file =
     [''ITEM: TIMESTEP'', ''0'', ''ITEM: ATOMS id type x y z'',
      ''1 1'', ''1 1 1.0 1.0 1.0'', ''2 1 2.0 2.0 2.0'']"

definition ungarbled_file :: "string list" where
  "ungarbled_file =
     [''ITEM: TIMESTEP'', ''0'', ''ITEM: ATOMS id type x y z'',
      ''1 1 1.0 1.0 1.0'', ''2 1 2.0 2.0 2.0'']"

text \<open>A dump that ends inside a BOX BOUNDS section.\<close>

definition eof_in_bounds_file :: "string list" where
  "eof_in_bounds_file =
     [''ITEM: TIMESTEP'', ''0'', ''ITEM: NUMBER OF ATOMS'', ''1'',
      ''ITEM: BOX BOUNDS pp pp pp'', ''0.0 10.0'', ''0.0 10.0'']"










text \<open>
  A dump whose BOX BOUNDS marker is followed by two bound lines and a blank line
  before the ATOMS marker.
\<close>

definition partial_box_file :: "string list" where
  "partial_box_file =
     [''ITEM: TIMESTEP'', ''0'', ''ITEM: NUMBER OF ATOMS'', ''2'',
      ''ITEM: BOX BOUNDS pp pp pp'', ''0.0 10.0'', ''0.0 10.0'', [],
      ''ITEM: ATOMS id type x y z'', ''1 1 1.0 1.0 1.0'', ''2 1 2.0 2.0 2.0'']"

text \<open>
  A dump that declares two atoms and ends at its ATOMS marker: no particle line is
  present.
\<close>

definition truncated_atoms_file :: "string list" where
  "truncated_atoms_file =
     [''ITEM: TIMESTEP'', ''0'', ''ITEM: NUMBER OF ATOMS'', ''2'',
      ''ITEM: BOX BOUNDS pp pp pp'', ''0.0 10.0'', ''0.0 10.0'', ''0.0 10.0'',
      ''ITEM: ATOMS id type x y z'']"

text \<open>
  A run log without a thermo header that names all the required columns: its only
  \<open>Step\<close> line lacks \<open>Pzz\<close> and \<open>Lz\<close>.
\<close>

definition headless_log :: "string list" where
  "headless_log =
     [''LAMMPS (2 Aug 2023)'', ''Step Temp Press Lx Ly'', ''0 300.0 1.5 10.0 10.0'',
      ''Loop time of 1.0 on 1 procs'']"

text \<open>
  Data for the writer: a snapshot with box bounds and a snapshot without, and the
  latter alone.
\<close>

definition written_data :: "rat snapshot list" where
  "written_data =
     [(0, [[1, 2, 3], [9 / 2, -5, 1 / 128]], Some [[0, 10], [0, 10], [-1 / 2, 21 / 2]], [1, 2]),
      (100, [[1, 2, 3]], None, [7])]"

definition unbounded_data :: "rat snapshot list" where
  "unbounded_data = [(100, [[1, 2, 3]], None, [7])]"

text \<open>A well-formed dump of ten lines: one snapshot of one atom.\<close>

definition one_atom_file :: "string list" where
  "one_atom_file =
     [''ITEM: TIMESTEP'', ''0'', ''ITEM: NUMBER OF ATOMS'', ''1'',
      ''ITEM: BOX BOUNDS pp pp pp'', ''0.0 10.0'', ''0.0 10.0'', ''0.0 10.0'',
      ''ITEM: ATOMS id type x y z'', ''1 1 1.0 1.0 1.0'']"

section \<open>Tokens of a line\<close>

lemma tokens_leading_space: "tokens [] (dropWhile is_space s) = tokens [] s"
  by (induction s) auto

lemma tokens_run:
  "tokens cur s =
     (if cur @ takeWhile (\<lambda>c. \<not> is_space c) s = [] then []
      else [cur @ takeWhile (\<lambda>c. \<not> is_space c) s])
     @ tokens [] (dropWhile (\<lambda>c. \<not> is_space c) s)"
proof (induction s arbitrary: cur)
  case Nil
  then show ?case by simp
next
  case (Cons c cs)
  show ?case
  proof (cases "is_space c")
    case True
    then show ?thesis by simp
  next
    case False
    then show ?thesis using Cons.IH [of "cur @ [c]"] by simp
  qed
qed

lemma strip_prefix: "prefix (strip s) (dropWhile is_space s)"
proof -
  have "prefix (rev (dropWhile P (rev xs))) xs" for P and xs :: "'a list"
  proof -
    have "xs = rev (dropWhile P (rev xs)) @ rev (takeWhile P (rev xs))"
      by (metis rev_append rev_rev_ident takeWhile_dropWhile_id)
    then show ?thesis by (metis prefixI)
  qed
  then show ?thesis by (simp add: strip_def)
qed

lemma marker_first_token:
  assumes "startswith (strip l) ''ITEM:''"
  shows "\<exists>tok toks. split l = tok # toks \<and> startswith tok ''ITEM:''"
proof -
  from assms have p: "prefix ''ITEM:'' (dropWhile is_space l)"
    using strip_prefix [of l] by (auto simp: startswith_def)
  then obtain r where r: "dropWhile is_space l = ''ITEM:'' @ r"
    by (auto simp: prefix_def)
  have ns: "\<forall>c \<in> set ''ITEM:''. \<not> is_space c"
    by (simp add: is_space_def)
  have tw: "takeWhile (\<lambda>c. \<not> is_space c) (''ITEM:'' @ r) = ''ITEM:'' @ takeWhile (\<lambda>c. \<not> is_space c) r"
    using ns by (simp add: is_space_def)
  have "split l = tokens [] (''ITEM:'' @ r)"
    using tokens_leading_space [of l] r by (simp add: split_def)
  also have "\<dots> = (''ITEM:'' @ takeWhile (\<lambda>c. \<not> is_space c) r)
       # tokens [] (dropWhile (\<lambda>c. \<not> is_space c) (''ITEM:'' @ r))"
    by (subst tokens_run) (simp only: tw append_Nil, simp)
  finally show ?thesis by (auto simp: startswith_def)
qed

lemma marker_not_floats:
  assumes "startswith (strip l) ''ITEM:''"
      and "\<And>tok. startswith tok ''ITEM:'' \<Longrightarrow> py_float P tok = None"
  shows "floats P (split l) = None"
  using marker_first_token [OF assms(1)] assms(2) by (auto simp: floats_def)

section \<open>The scan of a file and of its parts\<close>

lemma read_bounds_append:
  "read_bounds P n acc ls = Inr (bb, rest) \<Longrightarrow> read_bounds P n acc (ls @ B) = Inr (bb, rest @ B)"
  by (induction P n acc ls rule: read_bounds.induct) (auto split: option.splits)

lemma step_append:
  "step P st l rest = Inr (st', rest') \<Longrightarrow> step P st l (rest @ B) = Inr (st', rest' @ B)"
  by (auto simp: step_def Let_def read_bounds_append
           split: if_splits list.splits option.splits sum.splits)

lemma loop_append:
  "loop P st A = Inr st' \<Longrightarrow> loop P st (A @ B) = loop P st' B"
proof (induction P st A rule: loop.induct)
  case (1 P st)
  then show ?case by simp
next
  case (2 P st l rest)
  from "2.prems" obtain st1 rest1 where s: "step P st l rest = Inr (st1, rest1)"
    by (auto split: sum.splits)
  with "2.prems" have l: "loop P st1 rest1 = Inr st'" by simp
  from s have "step P st l (rest @ B) = Inr (st1, rest1 @ B)" by (rule step_append)
  with "2.IH" [OF s refl l] show ?case by simp
qed

lemma read_bounds_result:
  "read_bounds P n acc ls =
     (if \<not> list_all (\<lambda>l. floats P (split l) \<noteq> None) (take n ls) then Inl ValueError
      else if length ls < n then Inl StopIteration
      else Inr (acc @ map (\<lambda>l. the (floats P (split l))) (take n ls), drop n ls))"
  by (induction P n acc ls rule: read_bounds.induct) (auto split: option.splits)

lemma box_bounds_not_timestep:
  "startswith s ''ITEM: BOX BOUNDS'' \<Longrightarrow> \<not> startswith s ''ITEM: TIMESTEP''"
  by (auto simp: startswith_def prefix_def)

lemma dropWhile_keeps_suffix:
  "ys \<noteq> [] \<Longrightarrow> \<not> P (hd ys) \<Longrightarrow> \<exists>x. dropWhile P (xs @ ys) = x @ ys"
  by (induction xs) (auto simp: neq_Nil_conv intro: exI [of _ "[]"] exI [of _ "_ # _"])

lemma strip_marker_token:
  assumes "startswith tok ''ITEM:''"
  shows "\<exists>r. strip tok = ''ITEM:'' @ r"
proof -
  from assms obtain r where tok: "tok = ''ITEM:'' @ r"
    by (auto simp: startswith_def prefix_def)
  have "dropWhile is_space tok = tok"
    unfolding tok by (simp add: is_space_def)
  moreover have "\<exists>x. dropWhile is_space (rev r @ rev ''ITEM:'') = x @ rev ''ITEM:''"
    by (rule dropWhile_keeps_suffix) (simp_all add: is_space_def)
  then obtain x where "dropWhile is_space (rev tok) = x @ rev ''ITEM:''"
    unfolding tok by auto
  ultimately have "strip tok = ''ITEM:'' @ rev x"
    by (simp add: strip_def)
  then show ?thesis by blast
qed

lemma dec_float_rejects_marker:
  assumes "startswith tok ''ITEM:''"
  shows "dec_float tok = None"
proof -
  from strip_marker_token [OF assms] obtain r where r: "strip tok = ''ITEM:'' @ r" by blast
  have "digits_val 0 (takeWhile (\<lambda>c. c \<noteq> CHR ''.'') (''ITEM:'' @ r)) = None"
    by (simp add: digit_of_def)
  then show ?thesis
    by (simp add: dec_float_def r Let_def split: option.splits)
qed














lemma tokens_trailing_spaces:
  "\<forall>c \<in> set b. is_space c \<Longrightarrow> tokens cur (a @ b) = tokens cur a"
proof (induction a arbitrary: cur)
  case Nil
  then show ?case by (induction b arbitrary: cur) auto
next
  case (Cons c cs)
  then show ?case by simp
qed

lemma split_strip: "split (strip s) = split s"
proof -
  let ?t = "dropWhile is_space s"
  have t: "?t = rev (dropWhile is_space (rev ?t)) @ rev (takeWhile is_space (rev ?t))"
    by (metis rev_append rev_rev_ident takeWhile_dropWhile_id)
  have sp: "\<forall>c \<in> set (rev (takeWhile is_space (rev ?t))). is_space c"
    by (auto dest: set_takeWhileD)
  have "tokens [] (strip s) = tokens [] ?t"
    using tokens_trailing_spaces [OF sp, of "[]" "rev (dropWhile is_space (rev ?t))"] t
    by (simp add: strip_def)
  then show ?thesis by (simp add: split_def tokens_leading_space)
qed

lemma floats_length: "floats P toks = Some vals \<Longrightarrow> length vals = length toks"
  unfolding floats_def
  by (induction toks arbitrary: vals) (auto split: option.splits)

lemma data_line_short:
  "length (split line) < 4 \<Longrightarrow> data_line P st line = Inr st"
  by (auto simp: data_line_def dest: floats_length split: option.splits)

lemma data_line_not_number:
  "floats P (split line) = None \<Longrightarrow> data_line P st line = Inr st"
  by (simp add: data_line_def)

lemma marker_prefixes:
  "startswith s ''ITEM: TIMESTEP'' \<Longrightarrow> startswith s ''ITEM:''"
  "startswith s ''ITEM: BOX BOUNDS'' \<Longrightarrow> startswith s ''ITEM:''"
  "startswith s ''ITEM: ATOMS'' \<Longrightarrow> startswith s ''ITEM:''"
  "startswith s ''ITEM: NUMBER OF ATOMS'' \<Longrightarrow> startswith s ''ITEM:''"
  "startswith s ''ITEM: NUMBER OF ATOMS'' \<Longrightarrow> \<not> startswith s ''ITEM: TIMESTEP''"
  "startswith s ''ITEM: NUMBER OF ATOMS'' \<Longrightarrow> \<not> startswith s ''ITEM: BOX BOUNDS''"
  "startswith s ''ITEM: NUMBER OF ATOMS'' \<Longrightarrow> \<not> startswith s ''ITEM: ATOMS''"
  by (auto simp: startswith_def prefix_def)

text \<open>A line that is no marker and has a token that is not a number, or fewer than
  four tokens, leaves the state as it is.\<close>

lemma step_skips_invalid_line:
  assumes "\<not> startswith (strip l) ''ITEM:''"
      and "floats P (split l) = None \<or> length (split l) < 4"
  shows "step P st l rest = Inr (st, rest)"
proof -
  from assms(1) have "\<not> startswith (strip l) ''ITEM: TIMESTEP''"
    and "\<not> startswith (strip l) ''ITEM: BOX BOUNDS''"
    using marker_prefixes by blast+
  moreover have "data_line P st (strip l) = Inr st"
    using assms(2) by (auto simp: split_strip intro: data_line_short data_line_not_number)
  ultimately show ?thesis using assms(1) by (simp add: step_def)
qed

lemma step_skips_number_of_atoms:
  assumes "startswith (strip m) ''ITEM: NUMBER OF ATOMS''"
  shows "step P st m rest = Inr (st, rest)"
  using assms marker_prefixes [of "strip m"] by (simp add: step_def)

section \<open>A run log without its header\<close>

lemma log_line_no_header:
  assumes "\<not> header_line_found st"
      and "\<not> (startswith (strip l) ''Step''
              \<and> list_all (\<lambda>k. k \<in> set (split (strip l))) (required_keys key))"
  shows "\<exists>h. log_line P loading_direction key st l = Inr (st\<lparr>header := h\<rparr>)"
proof (cases "startswith (strip l) ''Step''")
  case True
  with assms show ?thesis by (auto simp: log_line_def Let_def)
next
  case False
  with assms(1) have "log_line P loading_direction key st l = Inr (st\<lparr>header := header st\<rparr>)"
    by (simp add: log_line_def Let_def)
  then show ?thesis by blast
qed

lemma log_loop_no_header:
  assumes "\<not> header_line_found st"
      and "\<forall>l \<in> set ls. \<not> (startswith (strip l) ''Step''
              \<and> list_all (\<lambda>k. k \<in> set (split (strip l))) (required_keys key))"
  shows "\<exists>h. log_loop P loading_direction key st ls = Inr (st\<lparr>header := h\<rparr>)"
  using assms
proof (induction ls arbitrary: st)
  case Nil
  have "log_loop P loading_direction key st [] = Inr (st\<lparr>header := header st\<rparr>)" by simp
  then show ?case by blast
next
  case (Cons l ls)
  from log_line_no_header [OF Cons.prems(1), of l key P loading_direction] Cons.prems(2)
  obtain h where h: "log_line P loading_direction key st l = Inr (st\<lparr>header := h\<rparr>)" by auto
  have "\<not> header_line_found (st\<lparr>header := h\<rparr>)" using Cons.prems(1) by simp
  from Cons.IH [OF this] Cons.prems(2) obtain h' where
    "log_loop P loading_direction key (st\<lparr>header := h\<rparr>) ls = Inr (st\<lparr>header := h'\<rparr>)" by auto
  with h show ?case by auto
qed

section \<open>Tokens of the lines written\<close>

lemma split_first_token:
  assumes "no_space t"
  shows "split (t @ CHR '' '' # rest) = t # split rest"
proof -
  from assms have ns: "\<forall>c \<in> set t. \<not> is_space c" and ne: "t \<noteq> []"
    by (auto simp: no_space_def)
  have sp: "is_space (CHR '' '')" by (simp add: is_space_def)
  have tw: "takeWhile (\<lambda>c. \<not> is_space c) (t @ CHR '' '' # rest) = t"
    using ns sp by (simp add: takeWhile_append2)
  have dw: "dropWhile (\<lambda>c. \<not> is_space c) (t @ CHR '' '' # rest) = CHR '' '' # rest"
    using ns sp by (simp add: dropWhile_append2)
  have "tokens [] (t @ CHR '' '' # rest) = [t] @ tokens [] (CHR '' '' # rest)"
    by (subst tokens_run) (simp only: tw dw append_Nil, simp add: ne)
  then show ?thesis using sp by (simp add: split_def)
qed

lemma split_last_token:
  assumes "no_space t"
  shows "split (nl t) = [t]"
proof -
  from assms have ns: "\<forall>c \<in> set t. \<not> is_space c" and ne: "t \<noteq> []"
    by (auto simp: no_space_def)
  have sp: "is_space (CHR 0x0A)" by (simp add: is_space_def)
  have tw: "takeWhile (\<lambda>c. \<not> is_space c) (t @ [CHR 0x0A]) = t"
    using ns sp by (simp add: takeWhile_append2)
  have dw: "dropWhile (\<lambda>c. \<not> is_space c) (t @ [CHR 0x0A]) = [CHR 0x0A]"
    using ns sp by (simp add: dropWhile_append2)
  have "tokens [] (t @ [CHR 0x0A]) = [t] @ tokens [] [CHR 0x0A]"
    by (subst tokens_run) (simp only: tw dw append_Nil, simp add: ne)
  then show ?thesis using sp by (simp add: split_def nl_def)
qed

lemma is_digit_not_space: "is_digit c \<Longrightarrow> \<not> is_space c"
  by (auto simp: is_digit_def is_space_def)

lemma six_decimals_no_space:
  assumes "six_decimals s"
  shows "no_space s"
proof -
  let ?u = "unsigned s"
  let ?ip = "takeWhile (\<lambda>c. c \<noteq> CHR ''.'') ?u"
  let ?r = "dropWhile (\<lambda>c. c \<noteq> CHR ''.'') ?u"
  from assms have ip: "?ip \<noteq> []" "list_all is_digit ?ip"
    and fp: "length (drop 1 ?r) = 6" "list_all is_digit (drop 1 ?r)"
    by (simp_all add: six_decimals_def Let_def)
  have "?r \<noteq> []"
  proof
    assume "?r = []"
    then have "length (drop 1 ?r) = 0" by (simp only: drop_Nil list.size)
    with fp(1) show False by simp
  qed
  then have "hd ?r = CHR ''.''" using hd_dropWhile [of "\<lambda>c. c \<noteq> CHR ''.''" ?u] by simp
  with \<open>?r \<noteq> []\<close> have r: "?r = CHR ''.'' # drop 1 ?r" by (cases ?r) auto
  have u: "set ?u = set ?ip \<union> set ?r"
    by (metis set_append takeWhile_dropWhile_id)
  have r': "set ?r = insert (CHR ''.'') (set (drop 1 ?r))"
    by (subst r) simp
  have "\<forall>c \<in> set ?u. \<not> is_space c"
  proof
    fix c assume "c \<in> set ?u"
    then have "c \<in> set ?ip \<or> c = CHR ''.'' \<or> c \<in> set (drop 1 ?r)"
      unfolding u r' by blast
    moreover have "\<not> is_space (CHR ''.'')" by (simp add: is_space_def)
    ultimately show "\<not> is_space c"
      using ip(2) fp(2) is_digit_not_space unfolding list_all_iff by blast
  qed
  moreover have "?u \<noteq> []" using ip(1) by auto
  moreover have "s = ?u \<or> s = CHR ''-'' # ?u"
    by (auto simp: unsigned_def split: list.splits)
  moreover have "\<not> is_space (CHR ''-'')" by (simp add: is_space_def)
  ultimately show ?thesis unfolding no_space_def by (metis list.distinct(1) set_ConsD)
qed

lemma show_nat_digits: "show_nat n \<noteq> [] \<and> list_all is_digit (show_nat n)"
proof (induction n rule: show_nat.induct)
  case (1 n)
  have d: "is_digit (''0123456789'' ! k)" if "k < 10" for k
  proof -
    from that have "k \<in> {0, 1, 2, 3, 4, 5, 6, 7, 8, 9}" by auto
    then show ?thesis by (auto simp: is_digit_def)
  qed
  show ?case
  proof (cases "n < 10")
    case True
    then show ?thesis using d [of n] by (subst show_nat.simps, subst show_nat.simps) simp
  next
    case False
    with 1 have "show_nat (n div 10) \<noteq> [] \<and> list_all is_digit (show_nat (n div 10))" by simp
    then show ?thesis using False d [of "n mod 10"]
      by (subst show_nat.simps, subst (2) show_nat.simps) simp
  qed
qed

lemma show_nat_no_space: "no_space (show_nat n)"
  using show_nat_digits [of n] is_digit_not_space
  unfolding no_space_def list_all_iff by blast

lemma show_int_no_space: "no_space (show_int i)"
proof -
  have "\<not> is_space (CHR ''-'')" by (simp add: is_space_def)
  then show ?thesis
    using show_nat_no_space [of "nat (- i)"] show_nat_no_space [of "nat i"]
    by (simp add: show_int_def no_space_def)
qed

lemma show_nat_length:
  "0 < k \<Longrightarrow> n < 10 ^ k \<Longrightarrow> length (show_nat n) \<le> k"
proof (induction n arbitrary: k rule: show_nat.induct)
  case (1 n)
  show ?case
  proof (cases "n < 10")
    case True
    then show ?thesis using "1.prems"(1) by (subst show_nat.simps) simp
  next
    case False
    with "1.prems" have k: "1 < k" by (cases "k = 1") auto
    then obtain j where j: "k = Suc j" "0 < j" by (cases k) auto
    from "1.prems"(2) j have "n div 10 < 10 ^ j" by (simp add: less_mult_imp_div_less mult.commute)
    from "1.IH" [OF False j(2) this] j show ?thesis
      using False by (subst show_nat.simps) simp
  qed
qed

lemma six_decimals_parts:
  assumes "ip \<noteq> []" "list_all is_digit ip" "length fp = 6" "list_all is_digit fp"
  shows "six_decimals (ip @ ''.'' @ fp)" and "six_decimals (''-'' @ ip @ ''.'' @ fp)"
proof -
  have dot: "\<not> is_digit (CHR ''.'')" by (simp add: is_digit_def)
  have minus: "\<not> is_digit (CHR ''-'')" by (simp add: is_digit_def)
  have nd: "\<forall>c \<in> set ip. c \<noteq> CHR ''.''"
    using assms(2) dot unfolding list_all_iff by blast
  have h: "hd ip \<noteq> CHR ''-''"
    using assms(1,2) minus unfolding list_all_iff by (metis hd_in_set)
  have tw: "takeWhile (\<lambda>c. c \<noteq> CHR ''.'') (ip @ CHR ''.'' # fp) = ip"
    using nd by (simp add: takeWhile_append2)
  have dw: "dropWhile (\<lambda>c. c \<noteq> CHR ''.'') (ip @ CHR ''.'' # fp) = CHR ''.'' # fp"
    using nd by (simp add: dropWhile_append2)
  have u1: "unsigned (ip @ CHR ''.'' # fp) = ip @ CHR ''.'' # fp"
    using assms(1) h by (cases ip) (simp_all add: unsigned_def)
  have u2: "unsigned (CHR ''-'' # ip @ CHR ''.'' # fp) = ip @ CHR ''.'' # fp"
    by (simp add: unsigned_def)
  have a: "ip @ ''.'' @ fp = ip @ CHR ''.'' # fp" by simp
  have b: "''-'' @ ip @ ''.'' @ fp = CHR ''-'' # ip @ CHR ''.'' # fp" by simp
  show "six_decimals (ip @ ''.'' @ fp)"
    unfolding a six_decimals_def u1 tw dw Let_def using assms by simp
  show "six_decimals (''-'' @ ip @ ''.'' @ fp)"
    unfolding b six_decimals_def u2 tw dw Let_def using assms by simp
qed

lemma six_decimals_rat_fmt6: "six_decimals (rat_fmt6 q)"
proof -
  define n where "n = nat (round_half_even (\<bar>q\<bar> * 1000000))"
  define fp where "fp = show_nat (n mod 1000000)"
  define pad where "pad = replicate (6 - length fp) (CHR ''0'') @ fp"
  have "n mod 1000000 < 1000000" by simp
  then have "n mod 1000000 < 10 ^ 6" by (simp only: numeral_eq_Suc power_Suc) simp
  then have len: "length fp \<le> 6" unfolding fp_def by (intro show_nat_length) simp_all
  have zero: "is_digit (CHR ''0'')" by (simp add: is_digit_def)
  have d: "list_all is_digit pad"
    using show_nat_digits [of "n mod 1000000"] zero
    unfolding pad_def fp_def list_all_iff by auto
  have l: "length pad = 6"
    using len by (simp add: pad_def)
  have r: "rat_fmt6 q = (if q < 0 then ''-'' else []) @ show_nat (n div 1000000) @ ''.'' @ pad"
    by (simp add: rat_fmt6_def n_def fp_def pad_def Let_def)
  have ip: "show_nat (n div 1000000) \<noteq> []" "list_all is_digit (show_nat (n div 1000000))"
    using show_nat_digits [of "n div 1000000"] by simp_all
  show ?thesis
    unfolding r using six_decimals_parts [OF ip l d] by (cases "q < 0") simp_all
qed

lemma write_bounds_ok:
  "\<forall>b \<in> set bs. 2 \<le> length b \<Longrightarrow> write_bounds P bs = (map (bound_line P) bs, None)"
  by (induction bs) auto

lemma write_atoms_ok:
  "\<forall>a \<in> set zs. 3 \<le> length (snd a) \<Longrightarrow> write_atoms P zs = (map (atom_line P) zs, None)"
  by (induction zs) auto

lemma write_snapshot_ok:
  assumes "\<forall>p \<in> set ps. 3 \<le> length p"
      and "\<forall>bs. bb = Some bs \<longrightarrow> (\<forall>b \<in> set bs. 2 \<le> length b)"
  shows "write_snapshot P (t, ps, bb, ids) = (snapshot_text P (t, ps, bb, ids), None)"
proof -
  have "\<forall>a \<in> set (zip ids ps). 3 \<le> length (snd a)"
    using assms(1) by (auto dest: set_zip_rightD)
  then have a: "write_atoms P (zip ids ps) = (map (atom_line P) (zip ids ps), None)"
    by (rule write_atoms_ok)
  have b: "bounds_lines P bb
       = (if bb = None \<or> bb = Some [] then default_bounds else map (bound_line P) (the bb), None)"
  proof (cases "(P, bb)" rule: bounds_lines.cases)
    case (3 P' b bs)
    then show ?thesis using assms(2) write_bounds_ok [of "b # bs" P] by simp
  qed auto
  show ?thesis by (simp add: a b snapshot_text_def)
qed

lemma write_trajectory_ok:
  assumes "\<forall>s \<in> set d. write_snapshot P s = (snapshot_text P s, None)"
  shows "write_trajectory P d = (concat (map (snapshot_text P) d), None)"
  using assms by (induction d) auto

lemma split_atom_line:
  assumes "six_decimals (fmt6 P (p ! 0))" "six_decimals (fmt6 P (p ! 1))"
          "six_decimals (fmt6 P (p ! 2))"
  shows "split (atom_line P (i, p))
           = [show_int i, ''1'', fmt6 P (p ! 0), fmt6 P (p ! 1), fmt6 P (p ! 2)]"
proof -
  let ?x = "fmt6 P (p ! 0)" and ?y = "fmt6 P (p ! 1)" and ?z = "fmt6 P (p ! 2)"
  have one: "no_space ''1''" by (simp add: no_space_def is_space_def)
  have "atom_line P (i, p)
          = show_int i @ CHR '' '' # (''1'' @ CHR '' '' # (?x @ CHR '' '' # (?y @ CHR '' '' # nl ?z)))"
    by (simp add: atom_line_def nl_def)
  then show ?thesis
    using show_int_no_space [of i] one assms
    by (simp only: split_first_token split_last_token six_decimals_no_space)
qed

lemma split_bound_line:
  assumes "six_decimals (fmt6 P (b ! 0))" "six_decimals (fmt6 P (b ! 1))"
  shows "split (bound_line P b) = [fmt6 P (b ! 0), fmt6 P (b ! 1)]"
proof -
  have "bound_line P b = fmt6 P (b ! 0) @ CHR '' '' # nl (fmt6 P (b ! 1))"
    by (simp add: bound_line_def nl_def)
  then show ?thesis
    using assms by (simp only: split_first_token split_last_token six_decimals_no_space)
qed

section \<open>Evaluating the renderings of the instance\<close>

lemma floor_rat_numeral_divide:
  "\<lfloor>(numeral a / numeral b :: rat)\<rfloor> = numeral a div numeral b"
  by (metis floor_divide_of_int_eq of_int_numeral)

lemma show_nat_digit: "n < 10 \<Longrightarrow> show_nat n = [''0123456789'' ! n]"
  by (subst show_nat.simps) simp

lemma show_nat_more:
  "10 \<le> n \<Longrightarrow> show_nat n = show_nat (n div 10) @ [''0123456789'' ! (n mod 10)]"
  by (subst show_nat.simps) simp

lemma replicate_numeral_unfold:
  "replicate (numeral k) x = x # replicate (pred_numeral k) x"
  by (simp add: numeral_eq_Suc)

lemma atom_line_D:
  "atom_line D (i, x # y # z # rest)
     = nl (show_int i @ '' 1 '' @ rat_fmt6 x @ '' '' @ rat_fmt6 y @ '' '' @ rat_fmt6 z)"
  by (simp add: atom_line_def D_def)

lemma bound_line_D:
  "bound_line D (lo # hi # rest) = nl (rat_fmt6 lo @ '' '' @ rat_fmt6 hi)"
  by (simp add: bound_line_def D_def)

lemmas fmt6_eval = rat_fmt6_def round_half_even_def Let_def floor_rat_numeral_divide
  show_nat_digit show_nat_more replicate_numeral_unfold show_int_def atom_line_D bound_line_D

section \<open>What the reader returns and the writer makes of it\<close>

lemma data_line_inv: "scan_inv st \<Longrightarrow> data_line P st line = Inr st' \<Longrightarrow> scan_inv st'"
  by (auto simp: data_line_def scan_inv_def split: option.splits if_splits prod.splits sum.splits)

lemma emit_inv: "scan_inv st \<Longrightarrow> list_all well_read (emit st)"
  by (auto simp: emit_def scan_inv_def well_read_def split: option.splits)

lemma read_bounds_three:
  "read_bounds P 3 [] ls = Inr (bb, rest) \<Longrightarrow> length bb = 3"
  by (subst (asm) read_bounds_result) (auto split: if_splits)

lemma step_inv:
  assumes "scan_inv st" and "step P st l rest = Inr (st', rest')"
  shows "scan_inv st'"
proof -
  consider (ts) "startswith (strip l) ''ITEM: TIMESTEP''"
    | (bb) "\<not> startswith (strip l) ''ITEM: TIMESTEP''" "startswith (strip l) ''ITEM: BOX BOUNDS''"
    | (other) "\<not> startswith (strip l) ''ITEM: TIMESTEP''" "\<not> startswith (strip l) ''ITEM: BOX BOUNDS''"
    by blast
  then show ?thesis
  proof cases
    case ts
    with assms(2) obtain t where
      "st' = st\<lparr>data := emit st, current_data := [], atom_ids := [], current_timestep := Some t\<rparr>"
      by (auto simp: step_def Let_def split: list.splits option.splits)
    then show ?thesis using assms(1) emit_inv [OF assms(1)] by (simp add: scan_inv_def)
  next
    case bb
    with assms(2) obtain bs where "read_bounds P 3 [] rest = Inr (bs, rest')"
      and "st' = st\<lparr>box_bounds := Some bs\<rparr>"
      by (auto simp: step_def split: sum.splits)
    then show ?thesis using assms(1) read_bounds_three by (auto simp: scan_inv_def)
  next
    case other
    with assms(2) have "st' = st \<or> (\<exists>c. st' = st\<lparr>col_idx := c\<rparr>)
        \<or> data_line P st (strip l) = Inr st'"
      by (auto simp: step_def Let_def split: if_splits list.splits sum.splits)
    then show ?thesis
    proof (elim disjE exE)
      assume "st' = st"
      then show ?thesis using assms(1) by simp
    next
      fix c assume "st' = st\<lparr>col_idx := c\<rparr>"
      then show ?thesis using assms(1) by (simp add: scan_inv_def)
    next
      assume "data_line P st (strip l) = Inr st'"
      then show ?thesis using assms(1) by (rule data_line_inv [rotated])
    qed
  qed
qed

lemma loop_inv: "scan_inv st \<Longrightarrow> loop P st ls = Inr st' \<Longrightarrow> scan_inv st'"
proof (induction P st ls rule: loop.induct)
  case (1 P st)
  then show ?case by simp
next
  case (2 P st l rest)
  from "2.prems"(2) obtain st1 rest1 where s: "step P st l rest = Inr (st1, rest1)"
    by (auto split: sum.splits)
  with "2.prems"(2) have l: "loop P st1 rest1 = Inr st'" by simp
  from "2.IH" [OF s refl step_inv [OF "2.prems"(1) s] l] show ?case .
qed

lemma read_dump_voro_well_read:
  "read_dump_voro P file = Inr d \<Longrightarrow> list_all well_read d"
proof -
  assume "read_dump_voro P file = Inr d"
  then obtain st where l: "loop P init_scan file = Inr st" and d: "d = emit st"
    by (auto simp: read_dump_voro_def split: sum.splits)
  have "scan_inv (init_scan :: 'a scan)" by (simp add: scan_inv_def init_scan_def)
  from emit_inv [OF loop_inv [OF this l]] d show ?thesis by simp
qed

lemma write_bounds_length: "write_bounds P bs = (ls, None) \<Longrightarrow> length ls = length bs"
  by (induction bs arbitrary: ls) (auto split: if_splits prod.splits)

lemma write_atoms_length: "write_atoms P zs = (ls, None) \<Longrightarrow> length ls = length zs"
  by (induction zs arbitrary: ls) (auto split: if_splits prod.splits)

lemma bounds_lines_length:
  assumes "bounds_lines P bb = (ls, None)" and "case bb of None \<Rightarrow> True | Some bs \<Rightarrow> length bs = 3"
  shows "length ls = 3"
proof (cases "(P, bb)" rule: bounds_lines.cases)
  case (3 P' b bs)
  with assms(1) have "write_bounds P (b # bs) = (ls, None)" by simp
  from write_bounds_length [OF this] assms(2) 3 show ?thesis by simp
qed (use assms in \<open>auto simp: default_bounds_def\<close>)

lemma write_snapshot_read:
  assumes "well_read s" and "write_snapshot P s = (ls, None)"
  shows "10 \<le> length ls \<and> ls ! 0 = nl ''ITEM: TIMESTEP''"
proof -
  obtain t ps bb ids where s: "s = (t, ps, bb, ids)" by (cases s) auto
  from assms(1) s have ps: "ps \<noteq> []" "length ids = length ps"
    and bb: "case bb of None \<Rightarrow> True | Some bs \<Rightarrow> length bs = 3"
    by (auto simp: well_read_def)
  from assms(2) s obtain bl al where bl: "bounds_lines P bb = (bl, None)"
    and al: "write_atoms P (zip ids ps) = (al, None)"
    and ls: "ls = [nl ''ITEM: TIMESTEP'', nl (show_int t), nl ''ITEM: NUMBER OF ATOMS'',
                   nl (show_int (int (length ps))), nl ''ITEM: BOX BOUNDS pp pp pp'']
                  @ bl @ [nl ''ITEM: ATOMS id type x y z''] @ al"
    by (auto simp: Let_def split: prod.splits option.splits)
  from bounds_lines_length [OF bl bb] have "length bl = 3" .
  moreover from write_atoms_length [OF al] ps have "1 \<le> length al"
    by (cases ps) auto
  ultimately show ?thesis by (simp add: ls)
qed

lemma write_trajectory_first:
  assumes "write_trajectory P (s # d) = (out, None)"
  shows "\<exists>ls ls'. write_snapshot P s = (ls, None) \<and> out = ls @ ls'"
  using assms by (auto split: prod.splits option.splits)

lemma strip_timestep_line: "strip (nl ''ITEM: TIMESTEP'') = ''ITEM: TIMESTEP''"
  by code_simp

section \<open>The column header of an ATOMS section\<close>

text \<open>
  C1. The claim: the column indices of \<open>id\<close>, \<open>x\<close>, \<open>y\<close>, \<open>z\<close> are resolved from
  the names on the ATOMS marker line, and no particle line is consumed as a header.
  The code takes the names from the line after the marker (\<open>next(f)\<close>). On
  \<open>reordered_file\<close> the marker says \<open>x y z id\<close>; the first particle line is consumed
  as the header, none of the four names is in it, the indices fall back to
  \<open>0, 1, 2, 3\<close>, and the two particles left are read with the \<open>x\<close> column as their
  id and \<open>y, z, id\<close> as their position.
\<close>

theorem atoms_header_taken_from_next_line:
  "read_dump_voro D reordered_file
     = Inr [(0, [[11 / 2, 13 / 2, 8], [17 / 2, 19 / 2, 9]], None, [4, 7])]"
  by code_simp

text \<open>
  C2. The claim: on the scenario file the parser yields two snapshots, of timesteps 0
  and 100, each with both particles and their \<open>x, y, z\<close>. The code yields the two
  timesteps, but each snapshot holds particle 2 only, and its position is made of the
  columns \<open>type, x, y\<close>: particle 1 of each snapshot was consumed as the header line.
\<close>

theorem scenario_loses_first_particle:
  "read_dump_voro D scenario_file
     = Inr [(0, [[1, 2, 2]], Some [[0, 10], [0, 10], [0, 10]], [2]),
            (100, [[1, 23 / 10, 2]], Some [[0, 21 / 2], [0, 21 / 2], [0, 21 / 2]], [2])]"
  by code_simp

text \<open>
  C3. The claim: an invalid line in an ATOMS section is skipped, and the records of
  the valid lines around it are those of the input without it. On \<open>garbled_file\<close>
  the invalid line \<open>1 1\<close> stands right after the marker: it is consumed as the header
  and both particles are read; without it the first particle is consumed instead.
\<close>

theorem invalid_line_after_marker_changes_records:
  "read_dump_voro D garbled_file = Inr [(0, [[1, 1, 1], [1, 2, 2]], None, [1, 2])]
   \<and> read_dump_voro D ungarbled_file = Inr [(0, [[1, 2, 2]], None, [2])]"
  by code_simp

section \<open>A truncated BOX BOUNDS section\<close>

text \<open>
  C4. A BOX BOUNDS marker followed by fewer than three bound lines before the next
  marker should make the parser fail rather than produce a partial box. The loop of
  lines 28 to 31 takes the three lines that follow the marker whatever they hold and
  never counts their tokens. In \<open>partial_box_file\<close> two bound lines and a blank line
  stand between the BOX BOUNDS marker and the ATOMS marker: \<open>float\<close> is mapped over
  the no tokens of the blank line, nothing is raised, and \<open>read_dump_voro\<close> returns a
  snapshot whose box has two bounds and an empty third entry.
\<close>

theorem blank_bound_line_gives_partial_box:
  "read_dump_voro D partial_box_file
     = Inr [(0, [[1, 2, 2]], Some [[0, 10], [0, 10], []], [2])]"
  by code_simp

text \<open>
  Where the section is cut by the end of the file, the third \<open>next(f)\<close> raises the
  iterator's \<open>StopIteration\<close>, which carries no message.
\<close>

lemma eof_in_bounds_raises_stop_iteration:
  "read_dump_voro D eof_in_bounds_file = Inl StopIteration \<and> \<not> has_message StopIteration"
  by code_simp

text \<open>
  More generally, let the scan of the lines \<open>pre\<close> end without an exception, so that
  the loop reaches the BOX BOUNDS marker \<open>m\<close>, and let fewer than three lines follow it
  or one of the three lines that follow be a marker line. When \<open>float\<close> rejects every
  token that begins with \<open>ITEM:\<close> (as the interpreter's does), \<open>read_dump_voro\<close>
  raises and returns no snapshot: \<open>ValueError\<close> when one of the (at most three) lines
  taken has a token that is not a number, a marker line among them, and
  \<open>StopIteration\<close> otherwise, the file having ended.
\<close>

lemma box_bounds_truncated_raises:
  assumes reach: "loop P init_scan pre = Inr st"
      and marker: "startswith (strip m) ''ITEM: BOX BOUNDS''"
      and short: "length rest < 3 \<or> list_ex (\<lambda>l. startswith (strip l) ''ITEM:'') (take 3 rest)"
      and rejects: "\<forall>tok. startswith tok ''ITEM:'' \<longrightarrow> py_float P tok = None"
  shows "read_dump_voro P (pre @ m # rest)
           = Inl (if list_all (\<lambda>l. floats P (split l) \<noteq> None) (take 3 rest)
                  then StopIteration else ValueError)"
proof -
  have nt: "\<not> startswith (strip m) ''ITEM: TIMESTEP''"
    using marker by (rule box_bounds_not_timestep)
  have markers: "floats P (split l) = None" if "startswith (strip l) ''ITEM:''" for l
    using that rejects by (auto intro: marker_not_floats)
  have stop: "length rest < 3"
    if "list_all (\<lambda>l. floats P (split l) \<noteq> None) (take 3 rest)"
    using short that markers by (auto simp: list_all_iff list_ex_iff)
  have "read_bounds P 3 [] rest
          = Inl (if list_all (\<lambda>l. floats P (split l) \<noteq> None) (take 3 rest)
                 then StopIteration else ValueError)"
    using stop by (subst read_bounds_result) auto
  then have "step P st m rest
          = Inl (if list_all (\<lambda>l. floats P (split l) \<noteq> None) (take 3 rest)
                 then StopIteration else ValueError)"
    using nt marker by (simp add: step_def)
  then have "loop P st (m # rest)
          = Inl (if list_all (\<lambda>l. floats P (split l) \<noteq> None) (take 3 rest)
                 then StopIteration else ValueError)"
    by simp
  with loop_append [OF reach, of "m # rest"] show ?thesis
    by (simp add: read_dump_voro_def)
qed

lemma box_bounds_truncated_raises_example:
  "read_dump_voro D ([''ITEM: TIMESTEP'', ''0''] @ ''ITEM: BOX BOUNDS pp pp pp''
      # [''0.0 10.0'', ''0.0 10.0'', ''ITEM: ATOMS id type x y z'', ''1 1 1.0 1.0 1.0''])
     = Inl ValueError"
proof -
  have reach: "loop D init_scan [''ITEM: TIMESTEP'', ''0''] = Inr (init_scan\<lparr>current_timestep := Some 0\<rparr>)"
    by code_simp
  have marker: "startswith (strip ''ITEM: BOX BOUNDS pp pp pp'') ''ITEM: BOX BOUNDS''"
    by code_simp
  have short: "length [''0.0 10.0'', ''0.0 10.0'', ''ITEM: ATOMS id type x y z'', ''1 1 1.0 1.0 1.0''] < 3
      \<or> list_ex (\<lambda>l. startswith (strip l) ''ITEM:'')
           (take 3 [''0.0 10.0'', ''0.0 10.0'', ''ITEM: ATOMS id type x y z'', ''1 1 1.0 1.0 1.0''])"
    by code_simp
  have rejects: "\<forall>tok. startswith tok ''ITEM:'' \<longrightarrow> py_float D tok = None"
    by (simp add: D_def dec_float_rejects_marker)
  have bad: "\<not> list_all (\<lambda>l. floats D (split l) \<noteq> None)
      (take 3 [''0.0 10.0'', ''0.0 10.0'', ''ITEM: ATOMS id type x y z'', ''1 1 1.0 1.0 1.0''])"
    by code_simp
  show ?thesis
    using box_bounds_truncated_raises [OF reach marker short rejects] bad by simp
qed

section \<open>Snapshots come out in file order\<close>



section \<open>The declared number of atoms\<close>

text \<open>
  C5. A declared NUMBER OF ATOMS larger than the number of particle lines present
  should raise nothing, the atoms section ending at the next marker or at the end of
  the file. \<open>truncated_atoms_file\<close> declares two atoms and ends at its ATOMS marker.
  At that marker line 39 takes the following line with \<open>next(f)\<close> to read the column
  names from it; there is none, and \<open>read_dump_voro\<close> raises \<open>StopIteration\<close>.
\<close>

theorem declared_count_at_end_of_file_raises:
  "read_dump_voro D truncated_atoms_file = Inl StopIteration"
  by code_simp

text \<open>
  The declared count itself is never read: when the loop reaches a NUMBER OF ATOMS
  marker \<open>m\<close> followed by a count line \<open>c\<close> (no marker, fewer than four tokens), the
  two lines can be deleted without changing what \<open>read_dump_voro\<close> returns or raises.
\<close>

lemma declared_count_is_never_read:
  assumes reach: "loop P init_scan pre = Inr st"
      and marker: "startswith (strip m) ''ITEM: NUMBER OF ATOMS''"
      and count: "\<not> startswith (strip c) ''ITEM:''" "length (split c) < 4"
  shows "read_dump_voro P (pre @ m # c # rest) = read_dump_voro P (pre @ rest)"
proof -
  have "loop P st (m # c # rest) = loop P st rest"
    using step_skips_number_of_atoms [OF marker, of P st] step_skips_invalid_line [of c P st] count
    by simp
  then show ?thesis
    using loop_append [OF reach] by (simp add: read_dump_voro_def)
qed

section \<open>The stress-strain extractor on a log without a header\<close>

text \<open>
  C9, as claimed: when the thermo header is never found, the script stops with a
  non-zero exit status. The script prints the failure and ends normally: on
  \<open>headless_log\<close> its exit status is 0.
\<close>

theorem missing_header_exit_status_zero:
  "stress_strain_script D (\<lambda>e. []) (Some headless_log)
     = \<lparr>stdout =
          [''Error: Could not find the thermo output header line in the log file.'',
           ''Please ensure 'thermo_style custom' is configured correctly in your LAMMPS input.'',
           ''Failed to extract stress-strain data.''],
        written = None, exit_status = 0\<rparr>"
  by code_simp

text \<open>
  C9, as the code has it. When no line of the log begins with \<open>Step\<close> and names all
  of \<open>Step\<close>, the stress component of the loading direction, \<open>Lx\<close>, \<open>Ly\<close> and
  \<open>Lz\<close>, \<open>extract_stress_strain_data\<close> prints the two lines of its message and
  returns \<open>None\<close>, no row; and the script (loading direction \<open>z\<close>) prints after them
  that the extraction failed, writes no file, and ends with exit status 0.
\<close>

theorem missing_header_is_reported:
  assumes key: "stress_component_key loading_direction = Some key"
      and nohdr: "\<forall>l \<in> set ls. \<not> (startswith (strip l) ''Step''
              \<and> list_all (\<lambda>k. k \<in> set (split (strip l))) (required_keys key))"
  shows "extract_stress_strain_data P exc_text log_file (Some ls) loading_direction
           = Inr ([''Error: Could not find the thermo output header line in the log file.'',
                   ''Please ensure 'thermo_style custom' is configured correctly in your LAMMPS input.''],
                  None)
         \<and> (loading_direction = ''z'' \<longrightarrow>
              stress_strain_script P exc_text (Some ls)
                = \<lparr>stdout =
                     [''Error: Could not find the thermo output header line in the log file.'',
                      ''Please ensure 'thermo_style custom' is configured correctly in your LAMMPS input.'',
                      ''Failed to extract stress-strain data.''],
                   written = None, exit_status = 0\<rparr>)"
proof -
  have "\<not> header_line_found (init_extraction :: 'a extraction)"
    by (simp add: init_extraction_def)
  from log_loop_no_header [OF this nohdr, of P loading_direction] obtain h where
    "log_loop P loading_direction key init_extraction ls = Inr (init_extraction\<lparr>header := h\<rparr>)"
    by blast
  then have e: "extract_stress_strain_data P exc_text log_file (Some ls) loading_direction
           = Inr ([''Error: Could not find the thermo output header line in the log file.'',
                   ''Please ensure 'thermo_style custom' is configured correctly in your LAMMPS input.''],
                  None)" for log_file
    using key by (simp add: extract_stress_strain_data_def init_extraction_def)
  then show ?thesis
    by (auto simp: stress_strain_script_def)
qed

theorem missing_header_is_reported_witness:
  "stress_component_key ''z'' = Some ''Pzz''
   \<and> list_all (\<lambda>l. \<not> (startswith (strip l) ''Step''
              \<and> list_all (\<lambda>k. k \<in> set (split (strip l))) (required_keys ''Pzz''))) headless_log
   \<and> extract_stress_strain_data D (\<lambda>e. []) ''lammps.log'' (Some headless_log) ''z''
       = Inr ([''Error: Could not find the thermo output header line in the log file.'',
               ''Please ensure 'thermo_style custom' is configured correctly in your LAMMPS input.''],
              None)"
proof -
  have key: "stress_component_key ''z'' = Some ''Pzz''"
    by code_simp
  have nohdr: "list_all (\<lambda>l. \<not> (startswith (strip l) ''Step''
              \<and> list_all (\<lambda>k. k \<in> set (split (strip l))) (required_keys ''Pzz''))) headless_log"
    by code_simp
  then have nohdr': "\<forall>l \<in> set headless_log. \<not> (startswith (strip l) ''Step''
              \<and> list_all (\<lambda>k. k \<in> set (split (strip l))) (required_keys ''Pzz''))"
    by (simp add: list_all_iff)
  from missing_header_is_reported [OF key nohdr', of D "\<lambda>e. []" "''lammps.log''"] key nohdr
  show ?thesis by simp
qed

section \<open>The format of the lines written\<close>

text \<open>
  C6, as claimed: every floating-point field that \<open>write_trajectory\<close> emits has
  exactly six digits after the point, the default bounds included. For a snapshot
  without box bounds the three bounds lines are the literal \<open>0.0 100.0\<close>, whose two
  fields have one digit after the point.
\<close>

theorem default_bounds_have_one_decimal:
  "write_trajectory D unbounded_data
     = ([nl ''ITEM: TIMESTEP'', nl ''100'', nl ''ITEM: NUMBER OF ATOMS'', nl ''1'',
         nl ''ITEM: BOX BOUNDS pp pp pp'', nl ''0.0 100.0'', nl ''0.0 100.0'', nl ''0.0 100.0'',
         nl ''ITEM: ATOMS id type x y z'', nl ''7 1 1.000000 2.000000 3.000000''], None)
   \<and> split (nl ''0.0 100.0'') = [''0.0'', ''100.0'']
   \<and> \<not> six_decimals ''0.0'' \<and> \<not> six_decimals ''100.0''"
proof -
  have "write_trajectory D unbounded_data
     = ([nl ''ITEM: TIMESTEP'', nl ''100'', nl ''ITEM: NUMBER OF ATOMS'', nl ''1'',
         nl ''ITEM: BOX BOUNDS pp pp pp'', nl ''0.0 100.0'', nl ''0.0 100.0'', nl ''0.0 100.0'',
         nl ''ITEM: ATOMS id type x y z'', nl ''7 1 1.000000 2.000000 3.000000''], None)"
    by (simp add: unbounded_data_def default_bounds_def fmt6_eval)
  moreover have "split (nl ''0.0 100.0'') = [''0.0'', ''100.0'']"
    by code_simp
  moreover have "\<not> six_decimals ''0.0''" and "\<not> six_decimals ''100.0''"
    by code_simp+
  ultimately show ?thesis by (simp only: simp_thms)
qed

text \<open>
  C6, as the code has it. Let every position of the data have three values or more
  and every list of a snapshot's box bounds two or more, and let \<open>{v:.6f}\<close> render
  each of their values with six decimals (it does for every finite float). Then
  \<open>write_trajectory\<close> raises nothing and writes, for each snapshot in order, the
  lines of \<open>snapshot_text\<close>: the bounds lines come from the snapshot's bounds, or
  are the three literal default lines when it has none; and one line per pair
  of \<open>zip(atom_ids, positions)\<close>, in input order, whose tokens are the id, the
  constant type \<open>1\<close> and the three coordinates, each with six decimals, as have the two
  fields of each bounds line written from a snapshot's own bounds.
\<close>

theorem written_fields_have_six_decimals:
  assumes shape: "\<forall>(t, ps, bb, ids) \<in> set d.
                    (\<forall>p \<in> set ps. 3 \<le> length p)
                    \<and> (\<forall>bs. bb = Some bs \<longrightarrow> (\<forall>b \<in> set bs. 2 \<le> length b))"
      and finite: "\<forall>(t, ps, bb, ids) \<in> set d.
                    (\<forall>p \<in> set ps. \<forall>v \<in> set p. six_decimals (fmt6 P v))
                    \<and> (\<forall>bs. bb = Some bs \<longrightarrow> (\<forall>b \<in> set bs. \<forall>v \<in> set b. six_decimals (fmt6 P v)))"
  shows "write_trajectory P d = (concat (map (snapshot_text P) d), None)
         \<and> (\<forall>(t, ps, bb, ids) \<in> set d.
               (\<forall>(i, p) \<in> set (zip ids ps).
                  split (atom_line P (i, p))
                    = [show_int i, ''1'', fmt6 P (p ! 0), fmt6 P (p ! 1), fmt6 P (p ! 2)]
                  \<and> list_all six_decimals [fmt6 P (p ! 0), fmt6 P (p ! 1), fmt6 P (p ! 2)])
               \<and> (\<forall>bs. bb = Some bs \<longrightarrow>
                    (\<forall>b \<in> set bs.
                       split (bound_line P b) = [fmt6 P (b ! 0), fmt6 P (b ! 1)]
                       \<and> list_all six_decimals [fmt6 P (b ! 0), fmt6 P (b ! 1)])))"
proof
  have "\<forall>s \<in> set d. write_snapshot P s = (snapshot_text P s, None)"
  proof
    fix s assume s: "s \<in> set d"
    obtain t ps bb ids where e: "s = (t, ps, bb, ids)" by (cases s) auto
    from shape s e show "write_snapshot P s = (snapshot_text P s, None)"
      unfolding e by (intro write_snapshot_ok) auto
  qed
  then show "write_trajectory P d = (concat (map (snapshot_text P) d), None)"
    by (rule write_trajectory_ok)
next
  show "\<forall>(t, ps, bb, ids) \<in> set d.
               (\<forall>(i, p) \<in> set (zip ids ps).
                  split (atom_line P (i, p))
                    = [show_int i, ''1'', fmt6 P (p ! 0), fmt6 P (p ! 1), fmt6 P (p ! 2)]
                  \<and> list_all six_decimals [fmt6 P (p ! 0), fmt6 P (p ! 1), fmt6 P (p ! 2)])
               \<and> (\<forall>bs. bb = Some bs \<longrightarrow>
                    (\<forall>b \<in> set bs.
                       split (bound_line P b) = [fmt6 P (b ! 0), fmt6 P (b ! 1)]
                       \<and> list_all six_decimals [fmt6 P (b ! 0), fmt6 P (b ! 1)]))"
  proof (intro ballI, clarify, intro conjI ballI allI impI)
    fix t ps bb ids a
    assume s: "(t, ps, bb, ids) \<in> set d" and a: "a \<in> set (zip ids ps)"
    obtain i p where e: "a = (i, p)" by (cases a) auto
    from a e have p: "p \<in> set ps" by (auto dest: set_zip_rightD)
    from shape s p have len: "3 \<le> length p" by auto
    then have "p ! 0 \<in> set p" "p ! 1 \<in> set p" "p ! 2 \<in> set p"
      by (intro nth_mem, linarith)+
    with finite s p have f: "six_decimals (fmt6 P (p ! 0))" "six_decimals (fmt6 P (p ! 1))"
      "six_decimals (fmt6 P (p ! 2))" by auto
    show "case a of (i, p) \<Rightarrow>
            split (atom_line P (i, p))
              = [show_int i, ''1'', fmt6 P (p ! 0), fmt6 P (p ! 1), fmt6 P (p ! 2)]
            \<and> list_all six_decimals [fmt6 P (p ! 0), fmt6 P (p ! 1), fmt6 P (p ! 2)]"
      unfolding e using split_atom_line [OF f, of i] f by simp
  next
    fix t ps bb ids bs b
    assume s: "(t, ps, bb, ids) \<in> set d" and bb: "bb = Some bs" and b: "b \<in> set bs"
    from shape s bb b have len: "2 \<le> length b" by auto
    then have "b ! 0 \<in> set b" "b ! 1 \<in> set b"
      by (intro nth_mem, linarith)+
    with finite s bb b have f: "six_decimals (fmt6 P (b ! 0))" "six_decimals (fmt6 P (b ! 1))"
      by auto
    show "split (bound_line P b) = [fmt6 P (b ! 0), fmt6 P (b ! 1)]"
      using split_bound_line [OF f] .
    show "list_all six_decimals [fmt6 P (b ! 0), fmt6 P (b ! 1)]"
      using f by simp
  qed
qed

theorem written_fields_have_six_decimals_witness:
  "list_all (\<lambda>(t, ps, bb, ids).
               list_all (\<lambda>p. 3 \<le> length p) ps
               \<and> (case bb of None \<Rightarrow> True | Some bs \<Rightarrow> list_all (\<lambda>b. 2 \<le> length b) bs))
            written_data
   \<and> write_trajectory D written_data
       = ([nl ''ITEM: TIMESTEP'', nl ''0'', nl ''ITEM: NUMBER OF ATOMS'', nl ''2'',
           nl ''ITEM: BOX BOUNDS pp pp pp'', nl ''0.000000 10.000000'',
           nl ''0.000000 10.000000'', nl ''-0.500000 10.500000'',
           nl ''ITEM: ATOMS id type x y z'', nl ''1 1 1.000000 2.000000 3.000000'',
           nl ''2 1 4.500000 -5.000000 0.007812'',
           nl ''ITEM: TIMESTEP'', nl ''100'', nl ''ITEM: NUMBER OF ATOMS'', nl ''1'',
           nl ''ITEM: BOX BOUNDS pp pp pp'', nl ''0.0 100.0'', nl ''0.0 100.0'', nl ''0.0 100.0'',
           nl ''ITEM: ATOMS id type x y z'', nl ''7 1 1.000000 2.000000 3.000000''], None)"
proof -
  have shape': "list_all (\<lambda>(t, ps, bb, ids).
               list_all (\<lambda>p. 3 \<le> length p) ps
               \<and> (case bb of None \<Rightarrow> True | Some bs \<Rightarrow> list_all (\<lambda>b. 2 \<le> length b) bs))
            written_data"
    by code_simp
  then have shape: "\<forall>(t, ps, bb, ids) \<in> set written_data.
                    (\<forall>p \<in> set ps. 3 \<le> length p)
                    \<and> (\<forall>bs. bb = Some bs \<longrightarrow> (\<forall>b \<in> set bs. 2 \<le> length b))"
    by (auto simp: list_all_iff)
  have finite: "\<forall>(t, ps, bb, ids) \<in> set written_data.
                    (\<forall>p \<in> set ps. \<forall>v \<in> set p. six_decimals (fmt6 D v))
                    \<and> (\<forall>bs. bb = Some bs \<longrightarrow>
                          (\<forall>b \<in> set bs. \<forall>v \<in> set b. six_decimals (fmt6 D v)))"
    by (simp add: D_def six_decimals_rat_fmt6 split: prod.splits)
  have rendered: "concat (map (snapshot_text D) written_data)
       = [nl ''ITEM: TIMESTEP'', nl ''0'', nl ''ITEM: NUMBER OF ATOMS'', nl ''2'',
           nl ''ITEM: BOX BOUNDS pp pp pp'', nl ''0.000000 10.000000'',
           nl ''0.000000 10.000000'', nl ''-0.500000 10.500000'',
           nl ''ITEM: ATOMS id type x y z'', nl ''1 1 1.000000 2.000000 3.000000'',
           nl ''2 1 4.500000 -5.000000 0.007812'',
           nl ''ITEM: TIMESTEP'', nl ''100'', nl ''ITEM: NUMBER OF ATOMS'', nl ''1'',
           nl ''ITEM: BOX BOUNDS pp pp pp'', nl ''0.0 100.0'', nl ''0.0 100.0'', nl ''0.0 100.0'',
           nl ''ITEM: ATOMS id type x y z'', nl ''7 1 1.000000 2.000000 3.000000'']"
    by (simp add: written_data_def snapshot_text_def default_bounds_def fmt6_eval)
  from written_fields_have_six_decimals [OF shape finite]
  have "write_trajectory D written_data = (concat (map (snapshot_text D) written_data), None)"
    by blast
  with rendered shape' show ?thesis by (simp only: simp_thms)
qed

section \<open>The round trip and its check\<close>

text \<open>
  C8. For every well-formed dump the file written from what was read should begin
  with the input's first line, and \<open>verify_output\<close> should succeed. \<open>one_atom_file\<close>
  is a well-formed dump of one snapshot with one atom. Line 39 consumes its only
  particle line as the column header of the ATOMS section, so no particle is parsed,
  the snapshot is not appended and \<open>read_dump_voro\<close> returns no snapshot;
  \<open>write_trajectory\<close> writes an empty file; \<open>verify_output\<close> cannot take ten lines
  from it, and the script ends with \<open>StopIteration\<close>.
\<close>

theorem one_atom_round_trip_fails:
  "read_dump_voro D one_atom_file = Inr []
   \<and> write_trajectory D [] = ([], None)
   \<and> verify_output one_atom_file [] = Inl StopIteration
   \<and> main D one_atom_file = Inl StopIteration"
  by code_simp

text \<open>
  The same holds of every input from which the reader returns no snapshot.
\<close>

lemma round_trip_without_snapshot:
  assumes "read_dump_voro P input_file = Inr []"
  shows "main P input_file = Inl StopIteration"
  using assms by (simp add: main_def verify_output_def)

text \<open>
  Let \<open>read_dump_voro\<close> return one snapshot or more from an input of ten lines or
  more whose first line is the TIMESTEP marker, and let \<open>write_trajectory\<close> raise
  nothing on them. Then the file written begins with the TIMESTEP marker line and has
  ten lines or more, \<open>verify_output\<close>, which compares the first lines only, returns
  \<open>True\<close>, and \<open>main\<close> ends without an exception.
\<close>

lemma round_trip_first_line:
  assumes read: "read_dump_voro P input_file = Inr d"
      and some: "d \<noteq> []"
      and written: "write_trajectory P d = (out, None)"
      and lines: "10 \<le> length input_file"
      and first: "strip (input_file ! 0) = ''ITEM: TIMESTEP''"
  shows "out ! 0 = nl ''ITEM: TIMESTEP'' \<and> 10 \<le> length out
         \<and> verify_output input_file out = Inr True
         \<and> main P input_file = Inr (out, True)"
proof -
  from some obtain s d' where d: "d = s # d'" by (cases d) auto
  from read_dump_voro_well_read [OF read] d have w: "well_read s" by simp
  from write_trajectory_first [OF written [unfolded d]] obtain ls ls' where
    ws: "write_snapshot P s = (ls, None)" and out: "out = ls @ ls'" by blast
  from write_snapshot_read [OF w ws] have ls: "10 \<le> length ls" "ls ! 0 = nl ''ITEM: TIMESTEP''"
    by simp_all
  from ls have "0 < length ls" by linarith
  with ls out have o: "out ! 0 = nl ''ITEM: TIMESTEP''" "10 \<le> length out"
    by (simp_all add: nth_append)
  then have v: "verify_output input_file out = Inr True"
    using lines first by (simp add: verify_output_def strip_timestep_line)
  then show ?thesis
    using o read written by (simp add: main_def)
qed

lemma round_trip_first_line_example:
  "read_dump_voro D scenario_file
     = Inr [(0, [[1, 2, 2]], Some [[0, 10], [0, 10], [0, 10]], [2]),
            (100, [[1, 23 / 10, 2]], Some [[0, 21 / 2], [0, 21 / 2], [0, 21 / 2]], [2])]
   \<and> 10 \<le> length scenario_file
   \<and> strip (scenario_file ! 0) = ''ITEM: TIMESTEP''
   \<and> main D scenario_file
       = Inr ([nl ''ITEM: TIMESTEP'', nl ''0'', nl ''ITEM: NUMBER OF ATOMS'', nl ''1'',
               nl ''ITEM: BOX BOUNDS pp pp pp'', nl ''0.000000 10.000000'',
               nl ''0.000000 10.000000'', nl ''0.000000 10.000000'',
               nl ''ITEM: ATOMS id type x y z'', nl ''2 1 1.000000 2.000000 2.000000'',
               nl ''ITEM: TIMESTEP'', nl ''100'', nl ''ITEM: NUMBER OF ATOMS'', nl ''1'',
               nl ''ITEM: BOX BOUNDS pp pp pp'', nl ''0.000000 10.500000'',
               nl ''0.000000 10.500000'', nl ''0.000000 10.500000'',
               nl ''ITEM: ATOMS id type x y z'', nl ''2 1 1.000000 2.300000 2.000000''], True)"
proof -
  have read: "read_dump_voro D scenario_file
     = Inr [(0, [[1, 2, 2]], Some [[0, 10], [0, 10], [0, 10]], [2]),
            (100, [[1, 23 / 10, 2]], Some [[0, 21 / 2], [0, 21 / 2], [0, 21 / 2]], [2])]"
    by code_simp
  have some: "[(0, [[1, 2, 2]], Some [[0, 10], [0, 10], [0, 10]], [2]),
            (100, [[1, 23 / 10, 2 :: rat]], Some [[0, 21 / 2], [0, 21 / 2], [0, 21 / 2]], [2 :: int])]
          \<noteq> []"
    by simp
  have written: "write_trajectory D
          [(0, [[1, 2, 2]], Some [[0, 10], [0, 10], [0, 10]], [2]),
           (100, [[1, 23 / 10, 2]], Some [[0, 21 / 2], [0, 21 / 2], [0, 21 / 2]], [2])]
       = ([nl ''ITEM: TIMESTEP'', nl ''0'', nl ''ITEM: NUMBER OF ATOMS'', nl ''1'',
               nl ''ITEM: BOX BOUNDS pp pp pp'', nl ''0.000000 10.000000'',
               nl ''0.000000 10.000000'', nl ''0.000000 10.000000'',
               nl ''ITEM: ATOMS id type x y z'', nl ''2 1 1.000000 2.000000 2.000000'',
               nl ''ITEM: TIMESTEP'', nl ''100'', nl ''ITEM: NUMBER OF ATOMS'', nl ''1'',
               nl ''ITEM: BOX BOUNDS pp pp pp'', nl ''0.000000 10.500000'',
               nl ''0.000000 10.500000'', nl ''0.000000 10.500000'',
               nl ''ITEM: ATOMS id type x y z'', nl ''2 1 1.000000 2.300000 2.000000''], None)"
    by (simp add: fmt6_eval)
  have lines: "10 \<le> length scenario_file"
    by code_simp
  have first: "strip (scenario_file ! 0) = ''ITEM: TIMESTEP''"
    by code_simp
  from round_trip_first_line [OF read some written lines first] read lines first
  show ?thesis by (simp only: simp_thms)
qed

section \<open>Box bounds carried from one snapshot to the next\<close>



end
